theory Spec2Isabelle
  imports Main
begin

section \<open>JavaScript values read from the registry\<close>

text \<open>
  The registry response is typed \<open>any\<close> in \<open>verifier.ts\<close>: whatever JSON the registry
  sends is read with dynamic property accesses. The model keeps it dynamic.

  \<^item> A number is kept by what the program can observe of it: whether it is truthy (not
    zero), and the string it converts to (\<open>1e+21\<close> for ten to the power 21, say).
  \<^item> A string is a list of 8-bit characters.
  \<^item> An object is the list of its members in the order of the JSON text; where a key
    is repeated, the last member wins, as in \<open>JSON.parse\<close>.
  \<^item> \<open>JBuiltin\<close> is a value that is not JSON but can be found through a prototype
    with a computed key (\<open>versions['constructor']\<close> is a function, \<open>tags['__proto__']\<close>
    a prototype object): it is an object, hence truthy, and is kept by the string it
    converts to.
\<close>

datatype jsval =
    JUndefined
  | JNull
  | JBool bool
  | JNum bool string
  | JStr string
  | JArr "jsval list"
  | JObj "(string \<times> jsval) list"
  | JBuiltin string

datatype error =
    NetworkError
  | IoError
  | ProcessError string
  | TypeError

text \<open>Truthiness, as \<open>!x\<close>, \<open>x && y\<close> and \<open>x || y\<close> test it.\<close>

fun truthy :: "jsval \<Rightarrow> bool" where
  "truthy JUndefined = False"
| "truthy JNull = False"
| "truthy (JBool b) = b"
| "truthy (JNum nonzero shown) = nonzero"
| "truthy (JStr s) = (s \<noteq> [])"
| "truthy (JArr xs) = True"
| "truthy (JObj kvs) = True"
| "truthy (JBuiltin shown) = True"

text \<open>
  A property read with a literal name: \<open>info['dist-tags']\<close>, \<open>info.versions\<close>,
  \<open>versionInfo.repository\<close>, \<open>repository.type\<close>, \<open>repository.url\<close>,
  \<open>versionInfo.gitHead\<close>, \<open>versionInfo['_shasum']\<close>, \<open>versionInfo.dist\<close> and
  \<open>dist.shasum\<close>. It raises a TypeError on \<open>undefined\<close> and \<open>null\<close>. None of these nine
  names is a property of a built-in prototype, of a string, of an array or of a function,
  so on every other value the read finds an own property of a parsed object, or
  \<open>undefined\<close>.
\<close>

fun getProp :: "jsval \<Rightarrow> string \<Rightarrow> error + jsval" where
  "getProp JUndefined k = Inl TypeError"
| "getProp JNull k = Inl TypeError"
| "getProp (JObj kvs) k = Inr (case map_of (rev kvs) k of None \<Rightarrow> JUndefined | Some v \<Rightarrow> v)"
| "getProp v k = Inr JUndefined"

text \<open>
  String conversion, as a template literal and a computed property key do it
  (\<open>ToString\<close>, with \<open>ToPrimitive\<close> on an object). A parsed object converts through
  \<open>Object.prototype.toString\<close> unless it has an own \<open>toString\<close> member: that member is
  data, not a function, the inherited \<open>valueOf\<close> returns the object itself, and the
  conversion raises a TypeError. An array joins the conversions of its elements with
  commas, \<open>null\<close> and \<open>undefined\<close> counting as empty, and raises when an element does.
\<close>

fun join_comma :: "string list \<Rightarrow> string" where
  "join_comma [] = []"
| "join_comma [x] = x"
| "join_comma (x # y # ys) = x @ '','' @ join_comma (y # ys)"

fun collect :: "(error + 'a) list \<Rightarrow> error + 'a list" where
  "collect [] = Inr []"
| "collect (Inl e # rs) = Inl e"
| "collect (Inr a # rs) = (case collect rs of Inl e \<Rightarrow> Inl e | Inr as \<Rightarrow> Inr (a # as))"

fun toString :: "jsval \<Rightarrow> error + string"
  and elemString :: "jsval \<Rightarrow> error + string" where
  "toString JUndefined = Inr ''undefined''"
| "toString JNull = Inr ''null''"
| "toString (JBool b) = Inr (if b then ''true'' else ''false'')"
| "toString (JNum nonzero shown) = Inr shown"
| "toString (JStr s) = Inr s"
| "toString (JArr xs) =
     (case collect (map elemString xs) of Inl e \<Rightarrow> Inl e | Inr ss \<Rightarrow> Inr (join_comma ss))"
| "toString (JObj kvs) =
     (if ''toString'' \<in> set (map fst kvs) then Inl TypeError else Inr ''[object Object]'')"
| "toString (JBuiltin shown) = Inr shown"
| "elemString JUndefined = Inr []"
| "elemString JNull = Inr []"
| "elemString (JBool b) = toString (JBool b)"
| "elemString (JNum nonzero shown) = toString (JNum nonzero shown)"
| "elemString (JStr s) = toString (JStr s)"
| "elemString (JArr xs) = toString (JArr xs)"
| "elemString (JObj kvs) = toString (JObj kvs)"
| "elemString (JBuiltin shown) = toString (JBuiltin shown)"

text \<open>
  Strict equality \<open>===\<close>: primitives by value; an array, an object or a built-in is
  equal only to itself, and the two sides compared in \<open>registry\<close> and in \<open>compare\<close> are
  never the same allocation (one of them is a string there).
\<close>

fun strict_eq :: "jsval \<Rightarrow> jsval \<Rightarrow> bool" where
  "strict_eq (JArr xs) b = False"
| "strict_eq (JObj kvs) b = False"
| "strict_eq (JBuiltin shown) b = False"
| "strict_eq a b = (a = b)"

section \<open>Progress state and the engine\<close>

datatype status = Pending | Working | Pass | Fail | Warn | Skipped

datatype step_id = Registry | Repo | GitHead | Checkout | Install | Pack | Compare

record Step =
  status :: status
  title :: string
  message :: "string option"

type_synonym VerifyProgress = "step_id \<Rightarrow> Step"

text \<open>
  The state a run works on: the fields of the engine object (\<open>progress\<close>, \<open>hasFailed\<close>,
  \<open>hasPrinted\<close>), the working directory of the process, and two histories kept for the
  statements below: every update handed to the render hook, and every command run
  together with the directory it ran in.
\<close>

record world =
  progress :: VerifyProgress
  hasFailed :: bool
  hasPrinted :: bool
  cwd :: string
  rendered :: "(step_id \<times> status \<times> string option) list"
  executed :: "(string \<times> string) list"

text \<open>
  The external collaborators. A command's outcome may depend on everything that ran
  before it, so it is a function of the number of commands run so far, of the working
  directory and of the command line. \<open>Inl\<close> is the rejection of the promise.

  \<open>builtin\<close> is the JavaScript runtime: \<open>builtin v k\<close> is what a read of \<open>v[k]\<close> finds
  when \<open>k\<close> is not an own member of a parsed object \<open>v\<close>: a character or the length of
  a string, an element or the length of an array, a property inherited from a prototype,
  or \<open>undefined\<close>. Which names exist depends on the version of the runtime, so every
  statement below holds for whatever this function is.
\<close>

record env =
  http_get :: "string \<Rightarrow> error + jsval"
  make_temp :: "error + string"
  run_command :: "nat \<Rightarrow> string \<Rightarrow> string \<Rightarrow> error + string"
  builtin :: "jsval \<Rightarrow> string \<Rightarrow> jsval"

text \<open>
  A property read with a computed key: \<open>info['dist-tags'][version || 'latest']\<close> and
  \<open>info.versions[resolvedVersion]\<close>. It raises a TypeError on \<open>undefined\<close> and \<open>null\<close>,
  finds an own member of a parsed object first, and asks the runtime otherwise.
\<close>

definition getComputed :: "env \<Rightarrow> jsval \<Rightarrow> string \<Rightarrow> error + jsval" where
  "getComputed E v k =
     (case v of
        JUndefined \<Rightarrow> Inl TypeError
      | JNull \<Rightarrow> Inl TypeError
      | JObj kvs \<Rightarrow> (case map_of (rev kvs) k of None \<Rightarrow> Inr (builtin E v k) | Some x \<Rightarrow> Inr x)
      | _ \<Rightarrow> Inr (builtin E v k))"

definition createProgress :: VerifyProgress where
  "createProgress k =
     (case k of
        Registry \<Rightarrow> \<lparr>status = Pending, title = ''Fetch package data from registry'', message = None\<rparr>
      | Repo \<Rightarrow> \<lparr>status = Pending, title = ''Version contains repository URL'', message = None\<rparr>
      | GitHead \<Rightarrow> \<lparr>status = Pending, title = ''Version contains gitHead'', message = None\<rparr>
      | Checkout \<Rightarrow> \<lparr>status = Pending, title = ''Shallow checkout'', message = None\<rparr>
      | Install \<Rightarrow> \<lparr>status = Pending, title = ''Install npm packages'', message = None\<rparr>
      | Pack \<Rightarrow> \<lparr>status = Pending, title = ''Create package'', message = None\<rparr>
      | Compare \<Rightarrow> \<lparr>status = Pending, title = ''Compare shasums'', message = None\<rparr>)"

text \<open>
  Modelled from the spec: \<open>Engine.updateProgress\<close> of \<open>engine.ts\<close>, which is not among
  the source files. It sets the named step's status and message, sets the run's fail flag
  when the status is \<open>Fail\<close>, and invokes the render hook, recorded here in \<open>rendered\<close>.
\<close>

definition updateProgress :: "step_id \<Rightarrow> status \<Rightarrow> string option \<Rightarrow> world \<Rightarrow> world" where
  "updateProgress k st msg s =
     s\<lparr>progress := (progress s)(k := (progress s k)\<lparr>status := st, message := msg\<rparr>),
       hasFailed := (hasFailed s \<or> st = Fail),
       rendered := rendered s @ [(k, st, msg)]\<rparr>"

text \<open>
  Modelled from the spec: \<open>Engine.get\<close> of \<open>engine.ts\<close>, which is not among the source
  files. A thin wrapper around the HTTP collaborator: one GET, the body parsed as JSON,
  a rejection when the transport fails or the body is not JSON.
\<close>

definition get :: "env \<Rightarrow> string \<Rightarrow> error + jsval" where
  "get E url = http_get E url"

text \<open>
  Modelled from the spec: \<open>Engine.createTemp\<close> of \<open>engine.ts\<close>, which is not among the
  source files. A thin wrapper around the allocator of temporary directories.
\<close>

definition createTemp :: "env \<Rightarrow> error + string" where
  "createTemp E = make_temp E"

text \<open>
  Modelled from the spec: \<open>Engine.exec\<close> of \<open>engine.ts\<close>, which is not among the source
  files. A thin wrapper around the subprocess executor: the command runs in the working
  directory of the process; a non-zero exit is a rejection, otherwise the standard output
  is returned. The command is recorded in \<open>executed\<close> whether it succeeds or not.
\<close>

definition exec :: "env \<Rightarrow> string \<Rightarrow> world \<Rightarrow> (error + string) \<times> world" where
  "exec E cmd s =
     (run_command E (length (executed s)) (cwd s) cmd,
      s\<lparr>executed := executed s @ [(cwd s, cmd)]\<rparr>)"

text \<open>
  \<open>process.chdir\<close> to a directory given as a string. The directory is taken to exist:
  the temporary directory was just allocated, the saved one was current a moment ago.
\<close>

definition chdir :: "string \<Rightarrow> world \<Rightarrow> world" where
  "chdir d s = s\<lparr>cwd := d\<rparr>"

section \<open>The registry phase\<close>

definition startsWith :: "string \<Rightarrow> string \<Rightarrow> bool" where
  "startsWith s p = (take (length p) s = p)"

definition substring :: "string \<Rightarrow> nat \<Rightarrow> string" where
  "substring s n = drop n s"

text \<open>Lines 112 to 114: the repository URL without a leading \<open>git+\<close>.\<close>

definition normalizeUrl :: "string \<Rightarrow> string" where
  "normalizeUrl url = (if startsWith url ''git+'' then substring url 4 else url)"

text \<open>
  Lines 56 and 57:
  \<open>(info['dist-tags'] && info['dist-tags'][version || 'latest']) || version\<close>.
\<close>

definition resolveVersion :: "env \<Rightarrow> jsval \<Rightarrow> string \<Rightarrow> error + jsval" where
  "resolveVersion E info version =
     (case getProp info ''dist-tags'' of
        Inl e \<Rightarrow> Inl e
      | Inr tags \<Rightarrow>
          if truthy tags then
            (case getComputed E tags (if version \<noteq> [] then version else ''latest'') of
               Inl e \<Rightarrow> Inl e
             | Inr v \<Rightarrow> if truthy v then Inr v else Inr (JStr version))
          else Inr (JStr version))"

text \<open>
  Line 68: \<open>!!info.versions && info.versions[resolvedVersion]\<close>. The key is converted
  to a string, which can raise.
\<close>

definition findVersionInfo :: "env \<Rightarrow> jsval \<Rightarrow> jsval \<Rightarrow> error + jsval" where
  "findVersionInfo E info resolved =
     (case getProp info ''versions'' of
        Inl e \<Rightarrow> Inl e
      | Inr versions \<Rightarrow>
          if truthy versions then
            (case toString resolved of
               Inl e \<Rightarrow> Inl e
             | Inr k \<Rightarrow> getComputed E versions k)
          else Inr (JBool False))"

text \<open>
  Lines 130 and 131:
  \<open>versionInfo['_shasum'] || (versionInfo.dist && versionInfo.dist.shasum)\<close>.
\<close>

definition registryShasum :: "jsval \<Rightarrow> error + jsval" where
  "registryShasum versionInfo =
     (case getProp versionInfo ''_shasum'' of
        Inl e \<Rightarrow> Inl e
      | Inr legacy \<Rightarrow>
          if truthy legacy then Inr legacy
          else
            (case getProp versionInfo ''dist'' of
               Inl e \<Rightarrow> Inl e
             | Inr dist \<Rightarrow> if truthy dist then getProp dist ''shasum'' else Inr dist))"

record RegistryResult =
  resolvedVersion :: jsval
  repoUrl :: jsval
  shasum :: jsval
  gitHead :: jsval

text \<open>The empty object \<open>{}\<close>: every field reads \<open>undefined\<close>.\<close>

definition noRegistryResult :: RegistryResult where
  "noRegistryResult =
     \<lparr>resolvedVersion = JUndefined, repoUrl = JUndefined, shasum = JUndefined,
      gitHead = JUndefined\<rparr>"

text \<open>
  The string literals and template strings of \<open>registry\<close>, in the order of the source.
  The argument of a template is the string its value converted to.
\<close>

definition registryUrl :: "string \<Rightarrow> string" where
  "registryUrl packageName = ''https://registry.npmjs.com/'' @ packageName"

definition msgFetchPackage :: string where
  "msgFetchPackage = ''Error fetching package data from registry''"

definition msgCannotResolve :: "string \<Rightarrow> string" where
  "msgCannotResolve version = ''Cannot resolve version '' @ version"

definition msgNoVersionInfo :: "string \<Rightarrow> string" where
  "msgNoVersionInfo resolved = ''Cannot find info for version '' @ resolved @ '' <<<<''"

definition msgNoRepository :: "string \<Rightarrow> string" where
  "msgNoRepository resolved = ''Repository is not specified for version '' @ resolved"

definition msgNonGit :: "string \<Rightarrow> string \<Rightarrow> string" where
  "msgNonGit ty resolved =
     ''Non-git ('' @ ty @ '') repository specified for version '' @ resolved"

definition msgNoRepositoryUrl :: "string \<Rightarrow> string" where
  "msgNoRepositoryUrl resolved = ''Repository URL is not specified for version '' @ resolved"

definition msgNoGitHead :: "string \<Rightarrow> string" where
  "msgNoGitHead resolved = ''GitHead is not specified for version '' @ resolved"

text \<open>
  \<open>Verifier.registry\<close>. An exception leaves the phase with the state as it is at that
  point; a template literal is evaluated, and can raise, before the update it is the
  message of. \<open>url.startsWith\<close> is a method call: on a value that is not a string it
  raises. The object returned on line 133 is \<open>{ resolvedVersion, repoUrl, shasum }\<close>: it
  has no \<open>gitHead\<close> property, so that field reads \<open>undefined\<close> in \<open>verify\<close>.
\<close>

definition registry ::
  "env \<Rightarrow> string \<Rightarrow> string \<Rightarrow> world \<Rightarrow> (error + RegistryResult) \<times> world" where
  "registry E packageName version s0 =
     (let s1 = updateProgress Registry Working None s0 in
      case get E (registryUrl packageName) of
        Inl err \<Rightarrow>
          (Inr noRegistryResult, updateProgress Registry Fail (Some msgFetchPackage) s1)
      | Inr info \<Rightarrow>
      (case resolveVersion E info version of
        Inl e \<Rightarrow> (Inl e, s1)
      | Inr resolved \<Rightarrow>
      if \<not> truthy resolved then
        (Inr noRegistryResult,
         updateProgress Registry Fail (Some (msgCannotResolve version)) s1)
      else
      (case findVersionInfo E info resolved of
        Inl e \<Rightarrow> (Inl e, s1)
      | Inr versionInfo \<Rightarrow>
      if \<not> truthy versionInfo then
        (case toString resolved of
           Inl e \<Rightarrow> (Inl e, s1)
         | Inr k \<Rightarrow>
             (Inr noRegistryResult,
              updateProgress Registry Fail (Some (msgNoVersionInfo k)) s1))
      else
      (let s2 = updateProgress Repo Working None (updateProgress Registry Pass None s1) in
       case getProp versionInfo ''repository'' of
         Inl e \<Rightarrow> (Inl e, s2)
       | Inr repository \<Rightarrow>
       if \<not> truthy repository then
         (case toString resolved of
            Inl e \<Rightarrow> (Inl e, s2)
          | Inr k \<Rightarrow>
              (Inr noRegistryResult, updateProgress Repo Fail (Some (msgNoRepository k)) s2))
       else
       (case getProp repository ''type'' of
         Inl e \<Rightarrow> (Inl e, s2)
       | Inr ty \<Rightarrow>
       if \<not> strict_eq ty (JStr ''git'') then
         (case toString ty of
            Inl e \<Rightarrow> (Inl e, s2)
          | Inr t \<Rightarrow>
         (case toString resolved of
            Inl e \<Rightarrow> (Inl e, s2)
          | Inr k \<Rightarrow>
              (Inr noRegistryResult, updateProgress Repo Fail (Some (msgNonGit t k)) s2)))
       else
       (case getProp repository ''url'' of
         Inl e \<Rightarrow> (Inl e, s2)
       | Inr url \<Rightarrow>
       if \<not> truthy url then
         (case toString resolved of
            Inl e \<Rightarrow> (Inl e, s2)
          | Inr k \<Rightarrow>
              (Inr noRegistryResult,
               updateProgress Repo Fail (Some (msgNoRepositoryUrl k)) s2))
       else
       (case url of
         JStr u \<Rightarrow>
           (let s3 = updateProgress GitHead Working None (updateProgress Repo Pass None s2) in
            case getProp versionInfo ''gitHead'' of
              Inl e \<Rightarrow> (Inl e, s3)
            | Inr head \<Rightarrow>
            (case (if \<not> truthy head then
                     (case toString resolved of
                        Inl e \<Rightarrow> Inl e
                      | Inr k \<Rightarrow> Inr (updateProgress GitHead Warn (Some (msgNoGitHead k)) s3))
                   else Inr s3) of
               Inl e \<Rightarrow> (Inl e, s3)
             | Inr s4 \<Rightarrow>
             (let s5 = updateProgress GitHead Pass None s4 in
              case registryShasum versionInfo of
                Inl e \<Rightarrow> (Inl e, s5)
              | Inr sh \<Rightarrow>
                  (Inr \<lparr>resolvedVersion = resolved, repoUrl = JStr (normalizeUrl u),
                        shasum = sh, gitHead = JUndefined\<rparr>, s5))))
       | _ \<Rightarrow> (Inl TypeError, s2))))))))"

section \<open>The checkout phase\<close>

record CheckoutResult =
  tempDir :: jsval
  refspec :: jsval

text \<open>
  The command lines and messages of \<open>checkout\<close>. The argument of a template is the
  string its value converted to.
\<close>

definition msgTempDir :: string where
  "msgTempDir = ''Error creating temp directory''"

definition cmdGitInit :: string where
  "cmdGitInit = ''git init''"

definition msgGitInit :: string where
  "msgGitInit = ''Error initializing git repo in temp directory''"

definition cmdRemoteAdd :: "string \<Rightarrow> string" where
  "cmdRemoteAdd url = ''git remote add origin '' @ [CHR 0x22] @ url @ [CHR 0x22]"

definition cmdFetch :: "string \<Rightarrow> string" where
  "cmdFetch ref = ''git fetch --depth 1 origin '' @ ref"

definition msgFetchCommit :: "string \<Rightarrow> string" where
  "msgFetchCommit g = ''Unable fetch commit from remote ('' @ take 7 g @ '')''"

definition tagV :: "string \<Rightarrow> string" where
  "tagV resolved = ''tags/v'' @ resolved"

definition tagPlain :: "string \<Rightarrow> string" where
  "tagPlain resolved = ''tags/'' @ resolved"

definition msgFetchTag :: "string \<Rightarrow> string" where
  "msgFetchTag resolved =
     ''Unable fetch tag from remote (tags/'' @ resolved @ '' or tags/v'' @ resolved @ '')''"

definition cmdCheckoutFetchHead :: string where
  "cmdCheckoutFetchHead = ''git checkout FETCH_HEAD''"

definition msgCheckoutFetchHead :: string where
  "msgCheckoutFetchHead = ''Unable to checkout FETCH_HEAD''"

text \<open>Lines 219 to 230, where the three ways of fetching meet.\<close>

definition checkoutFetchHead ::
  "env \<Rightarrow> string \<Rightarrow> string \<Rightarrow> jsval \<Rightarrow> world \<Rightarrow> (error + CheckoutResult) \<times> world" where
  "checkoutFetchHead E tmp dir0 ref s =
     (case exec E cmdCheckoutFetchHead s of
        (Inl err, s') \<Rightarrow>
          (Inr \<lparr>tempDir = JStr tmp, refspec = ref\<rparr>,
           chdir dir0 (updateProgress Checkout Fail (Some msgCheckoutFetchHead) s'))
      | (Inr out, s') \<Rightarrow>
          (Inr \<lparr>tempDir = JStr tmp, refspec = ref\<rparr>,
           updateProgress Checkout Pass None (chdir dir0 s')))"

text \<open>
  \<open>Verifier.checkout\<close>. The parameters are the values \<open>verify\<close> destructured from the
  registry phase, so they are dynamic values.

  \<^item> The command lines of lines 170 and 186 are template literals inside a \<open>try\<close>: when
    the conversion of \<open>repoUrl\<close> or of \<open>gitHead\<close> raises, the handler of that \<open>try\<close>
    runs, as it does when the command fails, and no command was run.
  \<^item> \<open>gitHead.substring(0, 7)\<close> in the handler of the failed fetch is a method call: on a
    value that is not a string it raises there, before the step is updated and the
    directory restored.
  \<^item> Lines 200, 205 and 211 each convert \<open>resolvedVersion\<close> in a template literal. When
    that conversion raises, it raises inside the \<open>try\<close> of line 199, is caught, raises
    again inside the \<open>try\<close> of line 204, is caught, and raises a third time in the
    handler, on line 211, outside every \<open>try\<close>: the phase raises with no command run, the
    step still \<open>Working\<close> and the directory not restored.
\<close>

definition checkout ::
  "env \<Rightarrow> jsval \<Rightarrow> jsval \<Rightarrow> jsval \<Rightarrow> world \<Rightarrow> (error + CheckoutResult) \<times> world" where
  "checkout E repoUrl' gitHead' resolved s0 =
     (let s1 = updateProgress Checkout Working None s0;
          dir0 = cwd s1 in
      case createTemp E of
        Inl err \<Rightarrow>
          (Inr \<lparr>tempDir = JUndefined, refspec = JUndefined\<rparr>,
           updateProgress Checkout Fail (Some msgTempDir) s1)
      | Inr tmp \<Rightarrow>
      (case exec E cmdGitInit (chdir tmp s1) of
        (Inl err, s2) \<Rightarrow>
          (Inr \<lparr>tempDir = JStr tmp, refspec = JUndefined\<rparr>,
           chdir dir0 (updateProgress Checkout Fail (Some msgGitInit) s2))
      | (Inr out, s2) \<Rightarrow>
      (case (case toString repoUrl' of
               Inl e \<Rightarrow> (Inl e, s2)
             | Inr url \<Rightarrow> exec E (cmdRemoteAdd url) s2) of
        (Inl err, s3) \<Rightarrow>
          (Inr \<lparr>tempDir = JStr tmp, refspec = JUndefined\<rparr>,
           chdir dir0 (updateProgress Checkout Fail (Some msgGitInit) s3))
      | (Inr out, s3) \<Rightarrow>
       if truthy gitHead' then
         (case (case toString gitHead' of
                  Inl e \<Rightarrow> (Inl e, s3)
                | Inr g \<Rightarrow> exec E (cmdFetch g) s3) of
            (Inr out, s4) \<Rightarrow> checkoutFetchHead E tmp dir0 gitHead' s4
          | (Inl err, s4) \<Rightarrow>
              (case gitHead' of
                 JStr g \<Rightarrow>
                   (Inr \<lparr>tempDir = JStr tmp, refspec = JUndefined\<rparr>,
                    chdir dir0 (updateProgress Checkout Fail (Some (msgFetchCommit g)) s4))
               | _ \<Rightarrow> (Inl TypeError, s4)))
       else
         (case toString resolved of
            Inl e \<Rightarrow> (Inl e, s3)
          | Inr k \<Rightarrow>
         (case exec E (cmdFetch (tagV k)) s3 of
            (Inr out, s4) \<Rightarrow> checkoutFetchHead E tmp dir0 (JStr (tagV k)) s4
          | (Inl err, s4) \<Rightarrow>
              (case exec E (cmdFetch (tagPlain k)) s4 of
                 (Inr out, s5) \<Rightarrow> checkoutFetchHead E tmp dir0 (JStr (tagPlain k)) s5
               | (Inl err', s5) \<Rightarrow>
                   (Inr \<lparr>tempDir = JStr tmp, refspec = JUndefined\<rparr>,
                    chdir dir0
                      (updateProgress Checkout Fail (Some (msgFetchTag k)) s5))))))))"

section \<open>The pack phase\<close>

text \<open>
  The pattern \<open>/shasum:\s+([0-9a-f]{40})/\<close>. \<open>\s\<close> is the white space of ECMAScript
  that fits in eight bits: tab, line feed, vertical tab, form feed, carriage return,
  space and the no-break space.
\<close>

definition isSpace :: "char \<Rightarrow> bool" where
  "isSpace c = (c \<in> set [CHR 0x09, CHR 0x0A, CHR 0x0B, CHR 0x0C, CHR 0x0D, CHR 0x20, CHR 0xA0])"

definition isHex :: "char \<Rightarrow> bool" where
  "isHex c = (c \<in> set ''0123456789abcdef'')"

text \<open>
  The pattern matched at the start of a string. \<open>\s+\<close> is greedy; giving back white
  space never helps, since the next character must be a hex digit, so the longest run is
  the only candidate.
\<close>

definition matchHere :: "string \<Rightarrow> string option" where
  "matchHere s =
     (if startsWith s ''shasum:'' then
        (let rest = substring s 7;
             hex = take 40 (dropWhile isSpace rest) in
         if takeWhile isSpace rest \<noteq> [] \<and> length hex = 40 \<and> list_all isHex hex
         then Some hex else None)
      else None)"

text \<open>\<open>RegExp.prototype.exec\<close>: the leftmost match; its first group, or no match.\<close>

fun regexExec :: "string \<Rightarrow> string option" where
  "regexExec [] = matchHere []"
| "regexExec (c # cs) =
     (case matchHere (c # cs) of Some d \<Rightarrow> Some d | None \<Rightarrow> regexExec cs)"

record PackResult =
  remoteShasum :: jsval

text \<open>How a caught error reads when appended to a string.\<close>

fun errorString :: "error \<Rightarrow> string" where
  "errorString NetworkError = ''NetworkError''"
| "errorString IoError = ''IoError''"
| "errorString (ProcessError m) = m"
| "errorString TypeError = ''TypeError''"

text \<open>The command lines and messages of \<open>pack\<close>.\<close>

definition cmdNpmPack :: string where
  "cmdNpmPack = ''npm pack --dry-run''"

definition msgWaiting :: string where
  "msgWaiting = ''Waiting for dependencies''"

definition cmdNpmCi :: string where
  "cmdNpmCi = ''npm ci''"

definition msgInstall :: string where
  "msgInstall = ''Error installing dependencies''"

definition msgPackError :: "error \<Rightarrow> string" where
  "msgPackError err = ''Error creating package from remote files'' @ errorString err"

definition msgParseShasum :: string where
  "msgParseShasum = ''Error parsing shasum from pack output''"

text \<open>
  Lines 277 to 293, where both ways of producing the pack output meet: \<open>exec(stdout)[1]\<close>
  raises on no match, inside the \<open>try\<close>.
\<close>

definition parseShasum :: "string \<Rightarrow> string \<Rightarrow> world \<Rightarrow> (error + PackResult) \<times> world" where
  "parseShasum dir0 stdout s =
     (case regexExec stdout of
        None \<Rightarrow>
          (Inr \<lparr>remoteShasum = JUndefined\<rparr>,
           chdir dir0 (updateProgress Pack Fail (Some msgParseShasum) s))
      | Some d \<Rightarrow>
          (Inr \<lparr>remoteShasum = JStr d\<rparr>, chdir dir0 (updateProgress Pack Pass None s)))"

text \<open>
  \<open>Verifier.pack\<close>. \<open>process.chdir(tempDir)\<close> raises on a directory that is not a
  string.
\<close>

definition pack :: "env \<Rightarrow> jsval \<Rightarrow> world \<Rightarrow> (error + PackResult) \<times> world" where
  "pack E tempDir' s0 =
     (let s1 = updateProgress Pack Working None s0;
          dir0 = cwd s1 in
      case tempDir' of
        JStr d \<Rightarrow>
          (case exec E cmdNpmPack (chdir d s1) of
             (Inr out, s2) \<Rightarrow> parseShasum dir0 out (updateProgress Install Skipped None s2)
           | (Inl err, s2) \<Rightarrow>
               (case exec E cmdNpmCi
                       (updateProgress Install Working None
                          (updateProgress Pack Pending (Some msgWaiting) s2)) of
                  (Inl err', s3) \<Rightarrow>
                    (Inr \<lparr>remoteShasum = JUndefined\<rparr>,
                     chdir dir0 (updateProgress Install Fail (Some msgInstall) s3))
                | (Inr out, s3) \<Rightarrow>
                    (case exec E cmdNpmPack
                            (updateProgress Pack Working None
                               (updateProgress Install Pass None s3)) of
                       (Inl err', s4) \<Rightarrow>
                         (Inr \<lparr>remoteShasum = JUndefined\<rparr>,
                          chdir dir0 (updateProgress Pack Fail (Some (msgPackError err')) s4))
                     | (Inr out', s4) \<Rightarrow> parseShasum dir0 out' s4)))
      | _ \<Rightarrow> (Inl TypeError, s1))"

section \<open>The compare phase and the pipeline\<close>

definition msgMismatch :: string where
  "msgMismatch = ''Shasums do not match''"

definition compare :: "jsval \<Rightarrow> jsval \<Rightarrow> world \<Rightarrow> world" where
  "compare registryShasum' remoteShasum' s0 =
     (let s1 = updateProgress Compare Working None s0 in
      if strict_eq registryShasum' remoteShasum' then updateProgress Compare Pass None s1
      else updateProgress Compare Fail (Some msgMismatch) s1)"

text \<open>\<open>Verifier.verify\<close>: \<open>Inl\<close> is the rejection of the promise it returns.\<close>

definition verify :: "env \<Rightarrow> string \<Rightarrow> string \<Rightarrow> world \<Rightarrow> (error + bool) \<times> world" where
  "verify E packageName version s =
     (let s0 = s\<lparr>progress := createProgress, hasFailed := False, hasPrinted := False\<rparr> in
      case registry E packageName version s0 of
        (Inl e, s1) \<Rightarrow> (Inl e, s1)
      | (Inr r, s1) \<Rightarrow>
      if hasFailed s1 then (Inr False, s1)
      else
      (case checkout E (repoUrl r) (gitHead r) (resolvedVersion r) s1 of
        (Inl e, s2) \<Rightarrow> (Inl e, s2)
      | (Inr c, s2) \<Rightarrow>
      if hasFailed s2 then (Inr False, s2)
      else
      (case pack E (tempDir c) s2 of
        (Inl e, s3) \<Rightarrow> (Inl e, s3)
      | (Inr p, s3) \<Rightarrow>
      if hasFailed s3 then (Inr False, s3)
      else
      (let s4 = compare (shasum r) (remoteShasum p) s3 in
       if hasFailed s4 then (Inr False, s4) else (Inr True, s4)))))"

section \<open>Vocabulary of the statements\<close>

type_synonym update = "step_id \<times> status \<times> string option"

text \<open>The updates rendered between two states of a run.\<close>

definition since :: "world \<Rightarrow> world \<Rightarrow> update list" where
  "since s s' = drop (length (rendered s)) (rendered s')"

definition brief :: "update list \<Rightarrow> (step_id \<times> status) list" where
  "brief evs = map (\<lambda>(k, st, m). (k, st)) evs"

text \<open>The command lines run between two states of a run.\<close>

definition commands :: "world \<Rightarrow> world \<Rightarrow> string list" where
  "commands s s' = map snd (drop (length (executed s)) (executed s'))"

text \<open>The statuses one step is set to, in order.\<close>

definition statuses_of :: "step_id \<Rightarrow> update list \<Rightarrow> status list" where
  "statuses_of k evs = map snd (filter (\<lambda>(k', st). k' = k) (brief evs))"

text \<open>The same, read off the updates without their messages.\<close>

definition statuses_in :: "step_id \<Rightarrow> (step_id \<times> status) list \<Rightarrow> status list" where
  "statuses_in k bs = map snd (filter (\<lambda>(k', st). k' = k) bs)"

text \<open>\<open>Pending\<close>, then \<open>Working\<close>, then one of the four final statuses.\<close>

fun rank :: "status \<Rightarrow> nat" where
  "rank Pending = 0"
| "rank Working = 1"
| "rank st = 2"

definition forward :: "status \<Rightarrow> status \<Rightarrow> bool" where
  "forward a b = (rank a \<le> rank b)"

text \<open>The position of a step in \<open>registry, repo, gitHead, checkout, install, pack, compare\<close>.\<close>

fun position :: "step_id \<Rightarrow> nat" where
  "position Registry = 0"
| "position Repo = 1"
| "position GitHead = 2"
| "position Checkout = 3"
| "position Install = 4"
| "position Pack = 5"
| "position Compare = 6"

text \<open>The effect of a list of updates on the progress and on the fail flag.\<close>

definition applyUpdate :: "VerifyProgress \<Rightarrow> update \<Rightarrow> VerifyProgress" where
  "applyUpdate p u = (case u of (k, st, m) \<Rightarrow> p(k := (p k)\<lparr>status := st, message := m\<rparr>))"

definition follows :: "world \<Rightarrow> update list \<Rightarrow> world \<Rightarrow> bool" where
  "follows s evs s' =
     (rendered s' = rendered s @ evs \<and>
      progress s' = foldl applyUpdate (progress s) evs \<and>
      hasFailed s' = (hasFailed s \<or> Fail \<in> snd ` set (brief evs)))"

text \<open>The updates each phase can render, by the way the phase ends.\<close>

definition registryFailed :: "(step_id \<times> status) list set" where
  "registryFailed =
     {[(Registry, Working), (Registry, Fail)],
      [(Registry, Working), (Registry, Pass), (Repo, Working), (Repo, Fail)]}"

definition registryRaised :: "(step_id \<times> status) list set" where
  "registryRaised =
     {[(Registry, Working)],
      [(Registry, Working), (Registry, Pass), (Repo, Working)]}"

definition registryPassed :: "(step_id \<times> status) list set" where
  "registryPassed =
     {[(Registry, Working), (Registry, Pass), (Repo, Working), (Repo, Pass),
       (GitHead, Working), (GitHead, Pass)],
      [(Registry, Working), (Registry, Pass), (Repo, Working), (Repo, Pass),
       (GitHead, Working), (GitHead, Warn), (GitHead, Pass)]}"

definition checkoutFailed :: "(step_id \<times> status) list" where
  "checkoutFailed = [(Checkout, Working), (Checkout, Fail)]"

definition checkoutPassed :: "(step_id \<times> status) list" where
  "checkoutPassed = [(Checkout, Working), (Checkout, Pass)]"

definition packFailed :: "(step_id \<times> status) list set" where
  "packFailed =
     {[(Pack, Working), (Install, Skipped), (Pack, Fail)],
      [(Pack, Working), (Pack, Pending), (Install, Working), (Install, Fail)],
      [(Pack, Working), (Pack, Pending), (Install, Working), (Install, Pass),
       (Pack, Working), (Pack, Fail)]}"

definition packPassed :: "(step_id \<times> status) list set" where
  "packPassed =
     {[(Pack, Working), (Install, Skipped), (Pack, Pass)],
      [(Pack, Working), (Pack, Pending), (Install, Working), (Install, Pass),
       (Pack, Working), (Pack, Pass)]}"

definition comparePassed :: "(step_id \<times> status) list" where
  "comparePassed = [(Compare, Working), (Compare, Pass)]"

definition compareFailed :: "(step_id \<times> status) list" where
  "compareFailed = [(Compare, Working), (Compare, Fail)]"

text \<open>The state after a command was started.\<close>

definition ran :: "string \<Rightarrow> world \<Rightarrow> world" where
  "ran cmd s = s\<lparr>executed := executed s @ [(cwd s, cmd)]\<rparr>"

section \<open>Sample runs\<close>

definition sampleDigest :: string where
  "sampleDigest = ''deadbeefdeadbeefdeadbeefdeadbeefdeadbeef''"

definition sampleHead :: string where
  "sampleHead = ''abc123abc123abc123abc123abc123abc123abcd''"

definition sampleVersion :: "jsval \<Rightarrow> (string \<times> jsval) list \<Rightarrow> jsval" where
  "sampleVersion url others =
     JObj ((''repository'', JObj [(''type'', JStr ''git''), (''url'', url)]) # others)"

definition sampleInfo :: "jsval \<Rightarrow> jsval" where
  "sampleInfo versionInfo =
     JObj [(''dist-tags'', JObj [(''latest'', JStr ''1.2.3'')]),
           (''versions'', JObj [(''1.2.3'', versionInfo)])]"

text \<open>
  The registry answers with the given package data, the temporary directory is
  \<open>/tmp/tbv\<close>, and the commands whose number (from 0) satisfies \<open>fails\<close> exit with an
  error; the others print a pack report. The two computed keys of the sample runs,
  \<open>latest\<close> and \<open>1.2.3\<close>, are own members of the objects they are read from, so the
  runtime is never asked for a built-in property, and the one given here has none.
\<close>

definition sampleEnv :: "jsval \<Rightarrow> (nat \<Rightarrow> bool) \<Rightarrow> env" where
  "sampleEnv info fails =
     \<lparr>http_get = (\<lambda>url. Inr info),
      make_temp = Inr ''/tmp/tbv'',
      run_command = (\<lambda>n dir cmd.
        if fails n then Inl (ProcessError ''exit 1'')
        else Inr (''npm notice shasum:        '' @ sampleDigest @ [CHR 0x0A])),
      builtin = (\<lambda>v k. JUndefined)\<rparr>"

definition start :: world where
  "start =
     \<lparr>progress = createProgress, hasFailed = False, hasPrinted = False, cwd = ''/home/user'',
      rendered = [], executed = []\<rparr>"

text \<open>Scenario A of the spec: the registry names a commit and a digest, every command succeeds.\<close>

definition infoA :: jsval where
  "infoA =
     sampleInfo (sampleVersion (JStr ''git+https://github.com/o/r.git'')
       [(''gitHead'', JStr sampleHead), (''dist'', JObj [(''shasum'', JStr sampleDigest)])])"

definition envA :: env where
  "envA = sampleEnv infoA (\<lambda>n. False)"

text \<open>
  Scenario E of the spec and its failing variant: command 4, the first
  \<open>npm pack --dry-run\<close>, exits with an error; in the second environment command 5,
  \<open>npm ci\<close>, does too.
\<close>

definition envRetry :: env where
  "envRetry = sampleEnv infoA (\<lambda>n. n = 4)"

definition envInstallFails :: env where
  "envInstallFails = sampleEnv infoA (\<lambda>n. n = 4 \<or> n = 5)"

text \<open>Commands 2 and 3, the two fetches by tag, exit with an error.\<close>

definition envNoTag :: env where
  "envNoTag = sampleEnv infoA (\<lambda>n. n = 2 \<or> n = 3)"

text \<open>A registry entry whose repository URL is the number 1.\<close>

definition envNumericUrl :: env where
  "envNumericUrl = sampleEnv (sampleInfo (sampleVersion (JNum True ''1'') [])) (\<lambda>n. False)"

text \<open>
  Three more responses that raise. In the first, the tag \<open>latest\<close> names the object
  \<open>{"toString": 1}\<close> and \<open>versions\<close> is \<open>{}\<close>. In the second, the repository type is
  that object. In the third, \<open>versions\<close> is an array, the tag \<open>latest\<close> is \<open>"0"\<close>, the
  runtime finds element 0 of the array under that key, and its repository URL is the
  number 1.
\<close>

definition envVersionObject :: env where
  "envVersionObject =
     sampleEnv
       (JObj [(''dist-tags'', JObj [(''latest'', JObj [(''toString'', JNum True ''1'')])]),
              (''versions'', JObj [])])
       (\<lambda>n. False)"

definition envTypeObject :: env where
  "envTypeObject =
     sampleEnv
       (sampleInfo
          (JObj [(''repository'',
                  JObj [(''type'', JObj [(''toString'', JNum True ''1'')]),
                        (''url'', JStr ''git+https://github.com/o/r.git'')])]))
       (\<lambda>n. False)"

definition envVersionsArray :: env where
  "envVersionsArray =
     (sampleEnv
        (JObj [(''dist-tags'', JObj [(''latest'', JStr ''0'')]),
               (''versions'', JArr [sampleVersion (JNum True ''1'') []])])
        (\<lambda>n. False))
     \<lparr>builtin := (\<lambda>v k. case v of
                     JArr (x # xs) \<Rightarrow> if k = ''0'' then x else JUndefined
                   | _ \<Rightarrow> JUndefined)\<rparr>"

text \<open>Registry entries without a commit, and without any digest.\<close>

definition versionNoHead :: jsval where
  "versionNoHead =
     sampleVersion (JStr ''git+https://github.com/o/r.git'')
       [(''dist'', JObj [(''shasum'', JStr sampleDigest)])]"

definition envNoHead :: env where
  "envNoHead = sampleEnv (sampleInfo versionNoHead) (\<lambda>n. False)"

definition versionNoShasum :: jsval where
  "versionNoShasum =
     sampleVersion (JStr ''git+https://github.com/o/r.git'') [(''gitHead'', JStr sampleHead)]"

definition envNoShasum :: env where
  "envNoShasum = sampleEnv (sampleInfo versionNoShasum) (\<lambda>n. False)"

section \<open>The digest pattern, as the specification words it\<close>

text \<open>
  This definition follows the spec's words, not the source: the output contains, after
  \<open>pre\<close>, a substring matching \<open>shasum:\s+([0-9a-f]{40})\<close>, namely \<open>shasum:\<close>, the
  non-empty white space \<open>ws\<close> and the 40 lowercase hex characters \<open>d\<close>.
\<close>

definition shasumOccurrence :: "string \<Rightarrow> string \<Rightarrow> string \<Rightarrow> string \<Rightarrow> string \<Rightarrow> bool" where
  "shasumOccurrence out pre ws d post =
     (out = pre @ ''shasum:'' @ ws @ d @ post \<and> ws \<noteq> [] \<and> list_all isSpace ws \<and>
      length d = 40 \<and> list_all isHex d)"

section \<open>The sample responses and the runtime\<close>

text \<open>
  Whatever the runtime is, the two computed reads of a run over a sample response find
  own members: the tag \<open>latest\<close> and the entry of version \<open>1.2.3\<close>.
\<close>

lemma sampleInfo_reads:
  "resolveVersion E (sampleInfo vi) ''latest'' = Inr (JStr ''1.2.3'')"
  "findVersionInfo E (sampleInfo vi) (JStr ''1.2.3'') = Inr vi"
  by (simp_all add: resolveVersion_def findVersionInfo_def getComputed_def sampleInfo_def)

section \<open>Repository URL normalization\<close>

lemma normalizeUrl_prefixed: "normalizeUrl (''git+'' @ u) = u"
  by (simp add: normalizeUrl_def startsWith_def substring_def)

lemma normalizeUrl_other: "\<not> startsWith u ''git+'' \<Longrightarrow> normalizeUrl u = u"
  by (simp add: normalizeUrl_def)

text \<open>
  C9, as the claim states it, fails: the normalization is not idempotent. Lines 112 to
  114 strip one prefix, so on a URL that starts with \<open>git+git+\<close> a second application
  strips a second one.
\<close>

theorem normalizeUrl_not_idempotent:
  "normalizeUrl ''git+git+https://x/y.git'' = ''git+https://x/y.git'' \<and>
   normalizeUrl (normalizeUrl ''git+git+https://x/y.git'') = ''https://x/y.git'' \<and>
   normalizeUrl (normalizeUrl ''git+git+https://x/y.git'') \<noteq> normalizeUrl ''git+git+https://x/y.git''"
  by (simp add: normalizeUrl_def startsWith_def substring_def)

text \<open>
  C9, amended. Repository URL normalization strips one leading \<open>git+\<close> when the URL has
  one and returns every URL that does not start with \<open>git+\<close> unchanged; normalizing
  again changes nothing whenever the normalized URL no longer starts with \<open>git+\<close>; and
  \<open>git+https://x/y.git\<close> maps to \<open>https://x/y.git\<close>.
\<close>

theorem normalizeUrl_strips_prefix:
  "normalizeUrl (''git+'' @ u) = u \<and>
   (\<not> startsWith v ''git+'' \<longrightarrow> normalizeUrl v = v) \<and>
   (\<not> startsWith (normalizeUrl w) ''git+'' \<longrightarrow> normalizeUrl (normalizeUrl w) = normalizeUrl w) \<and>
   normalizeUrl ''git+https://x/y.git'' = ''https://x/y.git''"
  by (simp add: normalizeUrl_def startsWith_def substring_def)

theorem normalizeUrl_strips_prefix_witness:
  "normalizeUrl ''https://x/y.git'' = ''https://x/y.git'' \<and>
   normalizeUrl (normalizeUrl ''git+ssh://h/r'') = normalizeUrl ''git+ssh://h/r'' \<and>
   normalizeUrl ''git+ssh://h/r'' = ''ssh://h/r''"
proof -
  have 1: "\<not> startsWith ''https://x/y.git'' ''git+''" by (simp add: startsWith_def)
  have 2: "\<not> startsWith (normalizeUrl ''git+ssh://h/r'') ''git+''"
    by (simp add: normalizeUrl_def startsWith_def substring_def)
  from normalizeUrl_strips_prefix [of "''ssh://h/r''" "''https://x/y.git''" "''git+ssh://h/r''"] 1 2
  show ?thesis by (simp add: normalizeUrl_def)
qed

section \<open>The digest pattern\<close>

lemma isHex_not_isSpace: "isHex c \<Longrightarrow> \<not> isSpace c"
  by (auto simp: isHex_def isSpace_def)

lemma startsWith_drop: "startsWith s p \<Longrightarrow> s = p @ drop (length p) s"
  by (metis append_take_drop_id startsWith_def)

lemma matchHere_Some:
  assumes "matchHere s = Some d"
  shows "\<exists>ws post. shasumOccurrence s [] ws d post"
proof -
  let ?rest = "drop 7 s"
  from assms have p: "startsWith s ''shasum:''"
    by (simp add: matchHere_def split: if_splits)
  with assms have ws: "takeWhile isSpace ?rest \<noteq> []"
    and d: "d = take 40 (dropWhile isSpace ?rest)" and len: "length d = 40" and hex: "list_all isHex d"
    by (auto simp: matchHere_def substring_def Let_def split: if_splits)
  have l: "length ''shasum:'' = 7" by simp
  from startsWith_drop [OF p] have "s = ''shasum:'' @ ?rest" unfolding l .
  also have "?rest = takeWhile isSpace ?rest @ dropWhile isSpace ?rest" by simp
  also have "dropWhile isSpace ?rest = d @ drop 40 (dropWhile isSpace ?rest)" using d by simp
  finally have "s = ''shasum:'' @ takeWhile isSpace ?rest @ d @ drop 40 (dropWhile isSpace ?rest)" .
  moreover have "list_all isSpace (takeWhile isSpace ?rest)"
    by (simp add: list_all_iff) (meson set_takeWhileD)
  ultimately have "shasumOccurrence s [] (takeWhile isSpace ?rest) d (drop 40 (dropWhile isSpace ?rest))"
    unfolding shasumOccurrence_def using ws len hex by simp
  then show ?thesis by blast
qed

lemma matchHere_complete:
  assumes "shasumOccurrence s [] ws d post"
  shows "matchHere s = Some d"
proof -
  from assms have s: "s = ''shasum:'' @ ws @ d @ post" and ws: "ws \<noteq> []" "list_all isSpace ws"
    and d: "length d = 40" "list_all isHex d"
    by (simp_all add: shasumOccurrence_def)
  from d obtain c cs where dc: "d = c # cs" by (cases d) auto
  with d have "\<not> isSpace c" by (simp add: isHex_not_isSpace)
  with ws dc have tw: "takeWhile isSpace (ws @ d @ post) = ws"
    and dw: "dropWhile isSpace (ws @ d @ post) = d @ post"
    by (simp_all add: list_all_iff)
  show ?thesis
    using tw dw ws d by (simp add: s matchHere_def startsWith_def substring_def)
qed

lemma regexExec_Some:
  "regexExec s = Some d \<Longrightarrow>
   \<exists>pre rest. s = pre @ rest \<and> matchHere rest = Some d \<and>
     (\<forall>i<length pre. matchHere (drop i s) = None)"
proof (induction s)
  case Nil
  then show ?case by simp
next
  case (Cons c cs)
  show ?case
  proof (cases "matchHere (c # cs)")
    case (Some d')
    with Cons.prems have "d' = d" by simp
    with Some show ?thesis by (intro exI [of _ "[]"] exI [of _ "c # cs"]) simp
  next
    case None
    with Cons.prems have "regexExec cs = Some d" by simp
    from Cons.IH [OF this] obtain pre rest where
      cs: "cs = pre @ rest" and m: "matchHere rest = Some d"
      and n: "\<forall>i<length pre. matchHere (drop i cs) = None" by blast
    have "\<forall>i<length (c # pre). matchHere (drop i (c # cs)) = None"
    proof (intro allI impI)
      fix i assume "i < length (c # pre)"
      then show "matchHere (drop i (c # cs)) = None"
        using None n by (cases i) auto
    qed
    with cs m show ?thesis by (intro exI [of _ "c # pre"] exI [of _ rest]) simp
  qed
qed

lemma regexExec_complete:
  "matchHere rest = Some d \<Longrightarrow> regexExec (pre @ rest) \<noteq> None"
proof (induction pre)
  case Nil
  then show ?case by (cases rest) auto
next
  case (Cons c pre)
  then show ?case by (cases "matchHere (c # pre @ rest)") auto
qed

lemma regexExec_None:
  "regexExec out = None \<Longrightarrow> \<not> shasumOccurrence out pre ws d post"
proof
  assume n: "regexExec out = None" and o: "shasumOccurrence out pre ws d post"
  from o have "shasumOccurrence (''shasum:'' @ ws @ d @ post) [] ws d post"
    and out: "out = pre @ (''shasum:'' @ ws @ d @ post)"
    by (simp_all add: shasumOccurrence_def)
  from this(1) have "matchHere (''shasum:'' @ ws @ d @ post) = Some d" by (rule matchHere_complete)
  from regexExec_complete [OF this, of pre] n out show False by simp
qed

lemma regexExec_leftmost:
  assumes "regexExec out = Some d"
  shows "\<exists>pre ws post. shasumOccurrence out pre ws d post \<and>
     (\<forall>pre' ws' d' post'. shasumOccurrence out pre' ws' d' post' \<longrightarrow>
        length pre \<le> length pre' \<and> (length pre' = length pre \<longrightarrow> d' = d))"
proof -
  from regexExec_Some [OF assms] obtain pre rest where
    out: "out = pre @ rest" and m: "matchHere rest = Some d"
    and n: "\<forall>i<length pre. matchHere (drop i out) = None" by blast
  from matchHere_Some [OF m] obtain ws post where o: "shasumOccurrence rest [] ws d post" by blast
  then have occ: "shasumOccurrence out pre ws d post"
    using out by (simp add: shasumOccurrence_def)
  have "length pre \<le> length pre' \<and> (length pre' = length pre \<longrightarrow> d' = d)"
    if o': "shasumOccurrence out pre' ws' d' post'" for pre' ws' d' post'
  proof -
    from o' have dr: "drop (length pre') out = ''shasum:'' @ ws' @ d' @ post'"
      by (simp add: shasumOccurrence_def)
    from o' have "shasumOccurrence (''shasum:'' @ ws' @ d' @ post') [] ws' d' post'"
      by (simp add: shasumOccurrence_def)
    then have m': "matchHere (drop (length pre') out) = Some d'"
      using dr matchHere_complete by simp
    have "\<not> length pre' < length pre"
    proof
      assume "length pre' < length pre"
      with n have "matchHere (drop (length pre') out) = None" by blast
      with m' show False by simp
    qed
    then have le: "length pre \<le> length pre'" by simp
    have "d' = d" if "length pre' = length pre"
    proof -
      from that out have "drop (length pre') out = rest" by simp
      with m m' show ?thesis by simp
    qed
    with le show ?thesis by blast
  qed
  with occ show ?thesis by blast
qed


section \<open>The state through a phase\<close>

lemma updateProgress_sel:
  "rendered (updateProgress k st m s) = rendered s @ [(k, st, m)]"
  "progress (updateProgress k st m s) = applyUpdate (progress s) (k, st, m)"
  "hasFailed (updateProgress k st m s) = (hasFailed s \<or> st = Fail)"
  "cwd (updateProgress k st m s) = cwd s"
  "executed (updateProgress k st m s) = executed s"
  "hasPrinted (updateProgress k st m s) = hasPrinted s"
  by (simp_all add: updateProgress_def applyUpdate_def)

lemma chdir_sel:
  "rendered (chdir d s) = rendered s"
  "progress (chdir d s) = progress s"
  "hasFailed (chdir d s) = hasFailed s"
  "cwd (chdir d s) = d"
  "executed (chdir d s) = executed s"
  "hasPrinted (chdir d s) = hasPrinted s"
  by (simp_all add: chdir_def)

lemma ran_sel:
  "rendered (ran c s) = rendered s"
  "progress (ran c s) = progress s"
  "hasFailed (ran c s) = hasFailed s"
  "cwd (ran c s) = cwd s"
  "executed (ran c s) = executed s @ [(cwd s, c)]"
  "hasPrinted (ran c s) = hasPrinted s"
  by (simp_all add: ran_def)

lemmas world_sel = updateProgress_sel chdir_sel ran_sel

lemma exec_eq: "exec E cmd s = (run_command E (length (executed s)) (cwd s) cmd, ran cmd s)"
  by (simp add: exec_def ran_def)

lemma getProp_truthy [simp]: "truthy v \<Longrightarrow> getProp v k \<noteq> Inl e"
  by (cases v) simp_all

lemma getProp_error: "getProp v k = Inl e \<Longrightarrow> e = TypeError \<and> (v = JUndefined \<or> v = JNull)"
  by (cases v) simp_all

lemma registryShasum_truthy [simp]: "truthy v \<Longrightarrow> registryShasum v \<noteq> Inl e"
  by (auto simp: registryShasum_def split: sum.splits)

lemma collect_error: "collect rs = Inl e \<Longrightarrow> Inl e \<in> set rs"
  by (induction rs rule: collect.induct) (auto split: sum.splits)

lemma toString_elemString_error:
  "(toString v = Inl e \<longrightarrow> e = TypeError) \<and> (elemString v = Inl e \<longrightarrow> e = TypeError)"
proof (induction v)
  case (JArr xs)
  have "e = TypeError" if "collect (map elemString xs) = Inl e"
  proof -
    from collect_error [OF that] obtain x where "x \<in> set xs" "elemString x = Inl e" by auto
    with JArr show ?thesis by blast
  qed
  then show ?case by (auto split: sum.splits)
qed (auto split: if_splits)

lemma toString_error: "toString v = Inl e \<Longrightarrow> e = TypeError"
  using toString_elemString_error by blast

lemma getComputed_truthy [simp]: "truthy v \<Longrightarrow> getComputed E v k \<noteq> Inl e"
  by (cases v) (simp_all add: getComputed_def split: option.splits)

lemma resolveVersion_error:
  "resolveVersion E info v = Inl e \<Longrightarrow> e = TypeError \<and> (info = JUndefined \<or> info = JNull)"
  by (auto simp: resolveVersion_def split: sum.splits if_splits dest: getProp_error)

lemma findVersionInfo_error:
  "findVersionInfo E info rv = Inl e \<Longrightarrow>
   e = TypeError \<and> (info = JUndefined \<or> info = JNull \<or> toString rv = Inl TypeError)"
  by (auto simp: findVersionInfo_def split: sum.splits if_splits
      dest: getProp_error toString_error)

lemma findVersionInfo_converts:
  "findVersionInfo E info rv = Inr vi \<Longrightarrow> truthy vi \<Longrightarrow> \<exists>k. toString rv = Inr k"
  by (auto simp: findVersionInfo_def split: sum.splits if_splits)

lemma findVersionInfo_no_raise:
  "findVersionInfo E info rv = Inr vi \<Longrightarrow> truthy vi \<Longrightarrow> toString rv \<noteq> Inl e"
  by (auto dest: findVersionInfo_converts)


lemma brief_append: "brief (a @ b) = brief a @ brief b"
  by (simp add: brief_def)

lemma follows_trans: "follows s a s1 \<Longrightarrow> follows s1 b s2 \<Longrightarrow> follows s (a @ b) s2"
  unfolding follows_def by (simp add: brief_append image_Un)

lemma follows_hasFailed:
  "follows s evs s' \<Longrightarrow> hasFailed s' = (hasFailed s \<or> Fail \<in> snd ` set (brief evs))"
  by (simp add: follows_def)

lemma follows_since: "follows s evs s' \<Longrightarrow> since s s' = evs"
  by (simp add: follows_def since_def)

lemma regexExec_length: "regexExec out = Some d \<Longrightarrow> length d = 40"
  using regexExec_leftmost [of out d] by (auto simp: shasumOccurrence_def)

lemma registry_paths_ex:
  "\<exists>evs. follows s evs (snd (registry E p v s)) \<and>
     cwd (snd (registry E p v s)) = cwd s \<and> executed (snd (registry E p v s)) = executed s \<and>
     (brief evs \<in> registryFailed \<and> fst (registry E p v s) = Inr noRegistryResult \<or>
      brief evs \<in> registryRaised \<and> fst (registry E p v s) = Inl TypeError \<or>
      brief evs \<in> registryPassed \<and>
        (\<exists>r k. fst (registry E p v s) = Inr r \<and> gitHead r = JUndefined \<and>
           toString (resolvedVersion r) = Inr k))"
  unfolding registryFailed_def registryRaised_def registryPassed_def
  apply (simp add: registry_def Let_def world_sel brief_def follows_def
      split: sum.splits jsval.splits)
  apply (auto dest: resolveVersion_error findVersionInfo_error toString_error
      findVersionInfo_no_raise)
  done

lemma registry_paths:
  assumes "registry E p v s = (r, s')"
  shows "follows s (since s s') s'" and "cwd s' = cwd s" and "executed s' = executed s"
    and "brief (since s s') \<in> registryFailed \<and> r = Inr noRegistryResult \<or>
         brief (since s s') \<in> registryRaised \<and> r = Inl TypeError \<or>
         brief (since s s') \<in> registryPassed \<and>
           (\<exists>x k. r = Inr x \<and> gitHead x = JUndefined \<and> toString (resolvedVersion x) = Inr k)"
proof -
  from registry_paths_ex [of s E p v] assms obtain evs where
    f: "follows s evs s'" and c: "cwd s' = cwd s" "executed s' = executed s" and
    b: "brief evs \<in> registryFailed \<and> r = Inr noRegistryResult \<or>
        brief evs \<in> registryRaised \<and> r = Inl TypeError \<or>
        brief evs \<in> registryPassed \<and>
          (\<exists>x k. r = Inr x \<and> gitHead x = JUndefined \<and> toString (resolvedVersion x) = Inr k)"
    by auto
  from follows_since [OF f] have e: "since s s' = evs" .
  show "follows s (since s s') s'" using f e by simp
  show "cwd s' = cwd s" "executed s' = executed s" by (fact c)+
  show "brief (since s s') \<in> registryFailed \<and> r = Inr noRegistryResult \<or>
        brief (since s s') \<in> registryRaised \<and> r = Inl TypeError \<or>
        brief (since s s') \<in> registryPassed \<and>
           (\<exists>x k. r = Inr x \<and> gitHead x = JUndefined \<and> toString (resolvedVersion x) = Inr k)"
    using b e by simp
qed

lemma checkout_paths_ex:
  "\<exists>evs. follows s evs (snd (checkout E u gh rv s)) \<and>
     (brief evs = checkoutFailed \<and>
        (\<exists>c. fst (checkout E u gh rv s) = Inr c) \<and> cwd (snd (checkout E u gh rv s)) = cwd s \<or>
      brief evs = checkoutPassed \<and>
        (\<exists>c tmp. fst (checkout E u gh rv s) = Inr c \<and> tempDir c = JStr tmp) \<and>
        cwd (snd (checkout E u gh rv s)) = cwd s \<or>
      brief evs = [(Checkout, Working)] \<and> fst (checkout E u gh rv s) = Inl TypeError \<and>
        (truthy gh \<and> (\<forall>g. gh \<noteq> JStr g) \<or> \<not> truthy gh \<and> toString rv = Inl TypeError))"
  unfolding checkoutFailed_def checkoutPassed_def
  apply (simp add: checkout_def checkoutFetchHead_def Let_def exec_eq world_sel brief_def
      follows_def split: sum.splits jsval.splits)
  apply (auto dest: toString_error)
  done

lemma checkout_paths:
  assumes "checkout E u gh rv s = (r, s')"
  shows "follows s (since s s') s'"
    and "brief (since s s') = checkoutFailed \<and> (\<exists>c. r = Inr c) \<and> cwd s' = cwd s \<or>
         brief (since s s') = checkoutPassed \<and> (\<exists>c tmp. r = Inr c \<and> tempDir c = JStr tmp) \<and>
           cwd s' = cwd s \<or>
         brief (since s s') = [(Checkout, Working)] \<and> r = Inl TypeError \<and>
           (truthy gh \<and> (\<forall>g. gh \<noteq> JStr g) \<or> \<not> truthy gh \<and> toString rv = Inl TypeError)"
proof -
  from checkout_paths_ex [of s E u gh rv] assms obtain evs where
    f: "follows s evs s'" and
    b: "brief evs = checkoutFailed \<and> (\<exists>c. r = Inr c) \<and> cwd s' = cwd s \<or>
        brief evs = checkoutPassed \<and> (\<exists>c tmp. r = Inr c \<and> tempDir c = JStr tmp) \<and>
          cwd s' = cwd s \<or>
        brief evs = [(Checkout, Working)] \<and> r = Inl TypeError \<and>
          (truthy gh \<and> (\<forall>g. gh \<noteq> JStr g) \<or> \<not> truthy gh \<and> toString rv = Inl TypeError)"
    by auto
  from follows_since [OF f] have e: "since s s' = evs" .
  show "follows s (since s s') s'" using f e by simp
  show "brief (since s s') = checkoutFailed \<and> (\<exists>c. r = Inr c) \<and> cwd s' = cwd s \<or>
        brief (since s s') = checkoutPassed \<and> (\<exists>c tmp. r = Inr c \<and> tempDir c = JStr tmp) \<and>
          cwd s' = cwd s \<or>
        brief (since s s') = [(Checkout, Working)] \<and> r = Inl TypeError \<and>
          (truthy gh \<and> (\<forall>g. gh \<noteq> JStr g) \<or> \<not> truthy gh \<and> toString rv = Inl TypeError)"
    using b e by simp
qed

lemma pack_paths_ex:
  "\<exists>evs. follows s evs (snd (pack E td s)) \<and> cwd (snd (pack E td s)) = cwd s \<and>
     (brief evs = [(Pack, Working)] \<and> fst (pack E td s) = Inl TypeError \<and> (\<forall>d. td \<noteq> JStr d) \<or>
      brief evs \<in> packFailed \<and> fst (pack E td s) = Inr \<lparr>remoteShasum = JUndefined\<rparr> \<or>
      brief evs \<in> packPassed \<and>
        (\<exists>d out. fst (pack E td s) = Inr \<lparr>remoteShasum = JStr d\<rparr> \<and> regexExec out = Some d))"
  unfolding packFailed_def packPassed_def
  apply (simp add: pack_def parseShasum_def Let_def exec_eq world_sel brief_def follows_def
      split: sum.splits jsval.splits option.splits)
  apply blast
  done

lemma pack_paths:
  assumes "pack E td s = (r, s')"
  shows "follows s (since s s') s'" and "cwd s' = cwd s"
    and "brief (since s s') = [(Pack, Working)] \<and> r = Inl TypeError \<and> (\<forall>d. td \<noteq> JStr d) \<or>
         brief (since s s') \<in> packFailed \<and> r = Inr \<lparr>remoteShasum = JUndefined\<rparr> \<or>
         brief (since s s') \<in> packPassed \<and>
           (\<exists>d. r = Inr \<lparr>remoteShasum = JStr d\<rparr> \<and> length d = 40)"
proof -
  from pack_paths_ex [of s E td] assms obtain evs where
    f: "follows s evs s'" and c: "cwd s' = cwd s" and
    b: "brief evs = [(Pack, Working)] \<and> r = Inl TypeError \<and> (\<forall>d. td \<noteq> JStr d) \<or>
        brief evs \<in> packFailed \<and> r = Inr \<lparr>remoteShasum = JUndefined\<rparr> \<or>
        brief evs \<in> packPassed \<and>
          (\<exists>d out. r = Inr \<lparr>remoteShasum = JStr d\<rparr> \<and> regexExec out = Some d)"
    by auto
  from follows_since [OF f] have e: "since s s' = evs" .
  show "follows s (since s s') s'" using f e by simp
  show "cwd s' = cwd s" by (fact c)
  show "brief (since s s') = [(Pack, Working)] \<and> r = Inl TypeError \<and> (\<forall>d. td \<noteq> JStr d) \<or>
        brief (since s s') \<in> packFailed \<and> r = Inr \<lparr>remoteShasum = JUndefined\<rparr> \<or>
        brief (since s s') \<in> packPassed \<and>
          (\<exists>d. r = Inr \<lparr>remoteShasum = JStr d\<rparr> \<and> length d = 40)"
    using b e regexExec_length by auto
qed

lemma compare_paths:
  "follows s (since s (compare a b s)) (compare a b s) \<and> cwd (compare a b s) = cwd s \<and>
   executed (compare a b s) = executed s \<and>
   brief (since s (compare a b s)) = (if strict_eq a b then comparePassed else compareFailed) \<and>
   hasFailed (compare a b s) = (hasFailed s \<or> \<not> strict_eq a b)"
  unfolding comparePassed_def compareFailed_def
  by (simp add: compare_def Let_def world_sel brief_def follows_def since_def)

lemma Fail_registry:
  "a \<in> registryFailed \<Longrightarrow> Fail \<in> snd ` set a"
  "a \<in> registryPassed \<Longrightarrow> Fail \<notin> snd ` set a"
  by (auto simp: registryFailed_def registryPassed_def)

lemma Fail_checkout:
  "Fail \<in> snd ` set checkoutFailed" "Fail \<notin> snd ` set checkoutPassed"
  by (simp_all add: checkoutFailed_def checkoutPassed_def)

lemma Fail_pack:
  "a \<in> packFailed \<Longrightarrow> Fail \<in> snd ` set a"
  "a \<in> packPassed \<Longrightarrow> Fail \<notin> snd ` set a"
  by (auto simp: packFailed_def packPassed_def)

section \<open>The paths through the pipeline\<close>

lemma since_reset [simp]:
  "since (s\<lparr>progress := a, hasFailed := b, hasPrinted := c\<rparr>) s' = since s s'"
  by (simp add: since_def)

lemma verify_cases:
  assumes s0: "s0 = s\<lparr>progress := createProgress, hasFailed := False, hasPrinted := False\<rparr>"
  obtains
    (raised) s1 where
      "registry E p v s0 = (Inl TypeError, s1)" "verify E p v s = (Inl TypeError, s1)"
      "follows s0 (since s0 s1) s1" "brief (since s0 s1) \<in> registryRaised" "cwd s1 = cwd s"
  | (registry_failed) s1 where
      "registry E p v s0 = (Inr noRegistryResult, s1)" "verify E p v s = (Inr False, s1)"
      "follows s0 (since s0 s1) s1" "brief (since s0 s1) \<in> registryFailed" "cwd s1 = cwd s"
  | (checkout_failed) r s1 c s2 where
      "registry E p v s0 = (Inr r, s1)" "brief (since s0 s1) \<in> registryPassed"
      "checkout E (repoUrl r) JUndefined (resolvedVersion r) s1 = (Inr c, s2)"
      "brief (since s1 s2) = checkoutFailed"
      "verify E p v s = (Inr False, s2)"
      "follows s0 (since s0 s1 @ since s1 s2) s2" "cwd s2 = cwd s"
  | (pack_failed) r s1 c tmp s2 s3 where
      "registry E p v s0 = (Inr r, s1)" "brief (since s0 s1) \<in> registryPassed"
      "checkout E (repoUrl r) JUndefined (resolvedVersion r) s1 = (Inr c, s2)"
      "brief (since s1 s2) = checkoutPassed" "tempDir c = JStr tmp"
      "pack E (JStr tmp) s2 = (Inr \<lparr>remoteShasum = JUndefined\<rparr>, s3)"
      "brief (since s2 s3) \<in> packFailed"
      "verify E p v s = (Inr False, s3)"
      "follows s0 (since s0 s1 @ since s1 s2 @ since s2 s3) s3" "cwd s3 = cwd s"
  | (compared) r s1 c tmp s2 dg s3 s4 where
      "registry E p v s0 = (Inr r, s1)" "brief (since s0 s1) \<in> registryPassed"
      "checkout E (repoUrl r) JUndefined (resolvedVersion r) s1 = (Inr c, s2)"
      "brief (since s1 s2) = checkoutPassed" "tempDir c = JStr tmp"
      "pack E (JStr tmp) s2 = (Inr \<lparr>remoteShasum = JStr dg\<rparr>, s3)" "length dg = 40"
      "brief (since s2 s3) \<in> packPassed"
      "s4 = compare (shasum r) (JStr dg) s3"
      "brief (since s3 s4) = (if strict_eq (shasum r) (JStr dg) then comparePassed else compareFailed)"
      "verify E p v s = (Inr (strict_eq (shasum r) (JStr dg)), s4)"
      "follows s0 (since s0 s1 @ since s1 s2 @ since s2 s3 @ since s3 s4) s4" "cwd s4 = cwd s"
proof -
  have nf0: "\<not> hasFailed s0" and cwd0: "cwd s0 = cwd s" by (simp_all add: s0)
  have V0: "verify E p v s =
     (case registry E p v s0 of
        (Inl e, s1) \<Rightarrow> (Inl e, s1)
      | (Inr r, s1) \<Rightarrow>
      if hasFailed s1 then (Inr False, s1)
      else
      (case checkout E (repoUrl r) (gitHead r) (resolvedVersion r) s1 of
        (Inl e, s2) \<Rightarrow> (Inl e, s2)
      | (Inr c, s2) \<Rightarrow>
      if hasFailed s2 then (Inr False, s2)
      else
      (case pack E (tempDir c) s2 of
        (Inl e, s3) \<Rightarrow> (Inl e, s3)
      | (Inr p, s3) \<Rightarrow>
      if hasFailed s3 then (Inr False, s3)
      else
      (let s4 = compare (shasum r) (remoteShasum p) s3 in
       if hasFailed s4 then (Inr False, s4) else (Inr True, s4)))))"
    unfolding verify_def Let_def s0 ..
  obtain r1 s1 where R: "registry E p v s0 = (r1, s1)" by (cases "registry E p v s0")
  note rp = registry_paths [OF R]
  have f1: "follows s0 (since s0 s1) s1" and cwd1: "cwd s1 = cwd s" using rp cwd0 by simp_all
  have h1: "hasFailed s1 = (Fail \<in> snd ` set (brief (since s0 s1)))"
    using follows_hasFailed [OF f1] nf0 by simp
  from rp(4) consider
    (fail) "brief (since s0 s1) \<in> registryFailed" "r1 = Inr noRegistryResult"
  | (raise) "brief (since s0 s1) \<in> registryRaised" "r1 = Inl TypeError"
  | (ok) r k where "brief (since s0 s1) \<in> registryPassed" "r1 = Inr r" "gitHead r = JUndefined"
      "toString (resolvedVersion r) = Inr k"
    by blast
  then show ?thesis
  proof cases
    case fail
    with h1 have "hasFailed s1" by (simp add: Fail_registry)
    with fail R have "verify E p v s = (Inr False, s1)" by (simp add: V0)
    with fail R f1 cwd1 show ?thesis using registry_failed by simp
  next
    case raise
    with R have "verify E p v s = (Inl TypeError, s1)" by (simp add: V0)
    with raise R f1 cwd1 show ?thesis using raised by simp
  next
    case ok
    with h1 have nf1: "\<not> hasFailed s1" by (simp add: Fail_registry)
    from ok R have R': "registry E p v s0 = (Inr r, s1)" by simp
    obtain r2 s2 where C: "checkout E (repoUrl r) JUndefined (resolvedVersion r) s1 = (r2, s2)"
      by (cases "checkout E (repoUrl r) JUndefined (resolvedVersion r) s1")
    note cp = checkout_paths [OF C]
    have f2: "follows s1 (since s1 s2) s2" by (rule cp(1))
    have h2: "hasFailed s2 = (Fail \<in> snd ` set (brief (since s1 s2)))"
      using follows_hasFailed [OF f2] nf1 by simp
    have f12: "follows s0 (since s0 s1 @ since s1 s2) s2" using f1 f2 by (rule follows_trans)
    from cp(2) ok(4) consider
      (cfail) c where "brief (since s1 s2) = checkoutFailed" "r2 = Inr c" "cwd s2 = cwd s1"
    | (cok) c tmp where "brief (since s1 s2) = checkoutPassed" "r2 = Inr c"
        "tempDir c = JStr tmp" "cwd s2 = cwd s1"
      by auto
    then show ?thesis
    proof cases
      case cfail
      with h2 have "hasFailed s2" by (simp add: Fail_checkout)
      with cfail ok nf1 R C have "verify E p v s = (Inr False, s2)" by (simp add: V0)
      with cfail ok R' C f12 cwd1 show ?thesis using checkout_failed by simp
    next
      case cok
      with h2 have nf2: "\<not> hasFailed s2" by (simp add: Fail_checkout)
      from cok C have C': "checkout E (repoUrl r) JUndefined (resolvedVersion r) s1 = (Inr c, s2)"
        by simp
      obtain r3 s3 where P: "pack E (JStr tmp) s2 = (r3, s3)" by (cases "pack E (JStr tmp) s2")
      note pp = pack_paths [OF P]
      have f3: "follows s2 (since s2 s3) s3" by (rule pp(1))
      have cwd3: "cwd s3 = cwd s" using pp(2) cok cwd1 by simp
      have h3: "hasFailed s3 = (Fail \<in> snd ` set (brief (since s2 s3)))"
        using follows_hasFailed [OF f3] nf2 by simp
      have f123: "follows s0 (since s0 s1 @ since s1 s2 @ since s2 s3) s3"
        using follows_trans [OF f12 f3] by simp
      from pp(3) consider
        (pfail) "brief (since s2 s3) \<in> packFailed" "r3 = Inr \<lparr>remoteShasum = JUndefined\<rparr>"
      | (pok) dg where "brief (since s2 s3) \<in> packPassed" "r3 = Inr \<lparr>remoteShasum = JStr dg\<rparr>"
          "length dg = 40"
        by auto
      then show ?thesis
      proof cases
        case pfail
        with h3 have "hasFailed s3" by (simp add: Fail_pack)
        with pfail cok ok nf1 nf2 R C P have "verify E p v s = (Inr False, s3)"
          by (simp add: V0)
        with pfail cok ok R' C' P f123 cwd3 show ?thesis using pack_failed by simp
      next
        case pok
        with h3 have nf3: "\<not> hasFailed s3" by (simp add: Fail_pack)
        define s4 where "s4 = compare (shasum r) (JStr dg) s3"
        note cmp = compare_paths [of s3 "shasum r" "JStr dg", folded s4_def]
        have f4: "follows s3 (since s3 s4) s4" using cmp by simp
        have f1234: "follows s0 (since s0 s1 @ since s1 s2 @ since s2 s3 @ since s3 s4) s4"
          using follows_trans [OF f123 f4] by simp
        have h4: "hasFailed s4 = (\<not> strict_eq (shasum r) (JStr dg))" using cmp nf3 by simp
        have V: "verify E p v s = (Inr (strict_eq (shasum r) (JStr dg)), s4)"
          using pok cok ok nf1 nf2 nf3 R C P h4 by (simp add: V0 Let_def s4_def)
        have cwd4: "cwd s4 = cwd s" using cmp cwd3 by simp
        from pok cok ok R' C' P f1234 V cwd4 cmp s4_def show ?thesis using compared by simp
      qed
    qed
  qed
qed


lemma statuses_of_append: "statuses_of k (a @ b) = statuses_of k a @ statuses_of k b"
  by (simp add: statuses_of_def brief_append)

lemma statuses_of_Cons:
  "statuses_of k ((k', st, m) # evs) = (if k' = k then st # statuses_of k evs else statuses_of k evs)"
  by (simp add: statuses_of_def brief_def)

lemma status_applyUpdate:
  "status (applyUpdate p (k', st, m) k) = (if k = k' then st else status (p k))"
  by (simp add: applyUpdate_def)

lemma status_foldl:
  "status (foldl applyUpdate p evs k) = last (status (p k) # statuses_of k evs)"
proof (induction evs arbitrary: p)
  case Nil
  then show ?case by (simp add: statuses_of_def brief_def)
next
  case (Cons e evs)
  obtain k' st m where e: "e = (k', st, m)" by (cases e)
  show ?case
    by (simp add: Cons.IH e statuses_of_Cons status_applyUpdate)
qed

lemma statuses_of_brief: "statuses_of k evs = statuses_in k (brief evs)"
  by (simp add: statuses_of_def statuses_in_def)

lemma statuses_in_append: "statuses_in k (a @ b) = statuses_in k a @ statuses_in k b"
  by (simp add: statuses_in_def)

lemma verify_events:
  "\<exists>a b c d. brief (since s (snd (verify E p v s))) = a @ b @ c @ d \<and>
     progress (snd (verify E p v s)) = foldl applyUpdate createProgress (since s (snd (verify E p v s))) \<and>
     (a \<in> registryFailed \<and> b = [] \<and> c = [] \<and> d = [] \<and> fst (verify E p v s) = Inr False \<or>
      a \<in> registryRaised \<and> b = [] \<and> c = [] \<and> d = [] \<and> fst (verify E p v s) = Inl TypeError \<or>
      a \<in> registryPassed \<and>
        (b = checkoutFailed \<and> c = [] \<and> d = [] \<and> fst (verify E p v s) = Inr False \<or>
         b = checkoutPassed \<and>
           (c \<in> packFailed \<and> d = [] \<and> fst (verify E p v s) = Inr False \<or>
            c \<in> packPassed \<and>
              (d = comparePassed \<and> fst (verify E p v s) = Inr True \<or>
               d = compareFailed \<and> fst (verify E p v s) = Inr False))))"
proof -
  define s0 where "s0 = s\<lparr>progress := createProgress, hasFailed := False, hasPrinted := False\<rparr>"
  have p0: "progress s0 = createProgress" by (simp add: s0_def)
  have since0: "\<And>x. since s0 x = since s x" by (simp add: s0_def)
  from s0_def show ?thesis
  proof (cases rule: verify_cases [where E = E and p = p and v = v])
    case (raised s1)
    from follows_since [OF raised(3)] raised(3) p0 have
      "progress s1 = foldl applyUpdate createProgress (since s s1)"
      by (simp add: follows_def since0)
    with raised show ?thesis
      by (intro exI [of _ "brief (since s s1)"] exI [of _ "[]"]) (simp add: since0)
  next
    case (registry_failed s1)
    from registry_failed(3) p0 have
      "progress s1 = foldl applyUpdate createProgress (since s s1)"
      by (simp add: follows_def since0)
    with registry_failed show ?thesis
      by (intro exI [of _ "brief (since s s1)"] exI [of _ "[]"]) (simp add: since0)
  next
    case (checkout_failed r s1 c s2)
    note f = checkout_failed(6)
    from follows_since [OF f] have e: "since s s2 = since s s1 @ since s1 s2" by (simp add: since0)
    from f p0 e have "progress s2 = foldl applyUpdate createProgress (since s s2)"
      by (simp add: follows_def since0)
    with checkout_failed e show ?thesis
      by (intro exI [of _ "brief (since s s1)"] exI [of _ "brief (since s1 s2)"] exI [of _ "[]"])
        (simp add: since0 brief_append)
  next
    case (pack_failed r s1 c tmp s2 s3)
    note f = pack_failed(9)
    from follows_since [OF f] have e: "since s s3 = since s s1 @ since s1 s2 @ since s2 s3"
      by (simp add: since0)
    from f p0 e have "progress s3 = foldl applyUpdate createProgress (since s s3)"
      by (simp add: follows_def since0)
    with pack_failed e show ?thesis
      by (intro exI [of _ "brief (since s s1)"] exI [of _ "brief (since s1 s2)"]
          exI [of _ "brief (since s2 s3)"] exI [of _ "[]"])
        (simp add: since0 brief_append)
  next
    case (compared r s1 c tmp s2 dg s3 s4)
    note f = compared(12)
    from follows_since [OF f] have
      e: "since s s4 = since s s1 @ since s1 s2 @ since s2 s3 @ since s3 s4"
      by (simp add: since0)
    from f p0 e have "progress s4 = foldl applyUpdate createProgress (since s s4)"
      by (simp add: follows_def since0)
    with compared(1-8,10,11) e show ?thesis
      by (intro exI [of _ "brief (since s s1)"] exI [of _ "brief (since s1 s2)"]
          exI [of _ "brief (since s2 s3)"] exI [of _ "brief (since s3 s4)"])
        (simp add: since0 brief_append)
  qed
qed


lemmas run_defs =
  registryFailed_def registryRaised_def registryPassed_def checkoutFailed_def
  checkoutPassed_def packFailed_def packPassed_def comparePassed_def compareFailed_def

lemma status_createProgress: "status (createProgress k) = Pending"
  by (cases k) (simp_all add: createProgress_def)



section \<open>The order of a step's statuses\<close>

lemma order_enum:
  assumes "a \<in> registryFailed \<and> b = [] \<and> c = [] \<and> d = [] \<or>
        a \<in> registryRaised \<and> b = [] \<and> c = [] \<and> d = [] \<or>
        a \<in> registryPassed \<and>
          (b = checkoutFailed \<and> c = [] \<and> d = [] \<or>
           b = checkoutPassed \<and>
             (c \<in> packFailed \<and> d = [] \<or>
              c \<in> packPassed \<and> (d = comparePassed \<or> d = compareFailed)))"
  shows "successively (\<lambda>a b. forward a b \<or> (k = Pack \<and> a = Working \<and> b = Pending))
     (Pending # statuses_in k (a @ b @ c @ d))"
  using assms unfolding run_defs
  apply (elim disjE conjE insertE emptyE)
  apply (cases k; simp add: statuses_in_def forward_def)+
  done

text \<open>
  C2, as the claim states it, fails: when the first \<open>npm pack --dry-run\<close> exits with an
  error, line 252 sets the pack step, which is \<open>Working\<close>, back to \<open>Pending\<close>.
\<close>

theorem pack_status_regresses:
  "statuses_of Pack (since start (snd (verify envRetry ''pkg'' ''latest'' start)))
     = [Working, Pending, Working, Pass] \<and>
   \<not> successively forward
     (Pending # statuses_of Pack (since start (snd (verify envRetry ''pkg'' ''latest'' start))))"
  by code_simp

text \<open>
  C2, amended. In every run and for every step, each update leaves the step's status
  where it is or moves it forward along \<open>Pending\<close>, \<open>Working\<close>, final status, with one
  exception: the pack step is set back from \<open>Working\<close> to \<open>Pending\<close>.
\<close>

theorem verify_status_order:
  "successively (\<lambda>a b. forward a b \<or> (k = Pack \<and> a = Working \<and> b = Pending))
     (Pending # statuses_of k (since s (snd (verify E p v s))))"
proof -
  from verify_events [of s E p v] obtain a b c d where
    e: "brief (since s (snd (verify E p v s))) = a @ b @ c @ d" and
    r: "a \<in> registryFailed \<and> b = [] \<and> c = [] \<and> d = [] \<or>
        a \<in> registryRaised \<and> b = [] \<and> c = [] \<and> d = [] \<or>
        a \<in> registryPassed \<and>
          (b = checkoutFailed \<and> c = [] \<and> d = [] \<or>
           b = checkoutPassed \<and>
             (c \<in> packFailed \<and> d = [] \<or>
              c \<in> packPassed \<and> (d = comparePassed \<or> d = compareFailed)))"
    by blast
  from order_enum [OF r] show ?thesis by (simp add: statuses_of_brief e)
qed

section \<open>Halting on the first failure\<close>

lemma halt_enum:
  assumes "a \<in> registryFailed \<and> b = [] \<and> c = [] \<and> d = [] \<and> r = Inr False \<or>
        a \<in> registryRaised \<and> b = [] \<and> c = [] \<and> d = [] \<and> r = Inl TypeError \<or>
        a \<in> registryPassed \<and>
          (b = checkoutFailed \<and> c = [] \<and> d = [] \<and> r = Inr False \<or>
           b = checkoutPassed \<and>
             (c \<in> packFailed \<and> d = [] \<and> r = Inr False \<or>
              c \<in> packPassed \<and>
                (d = comparePassed \<and> r = Inr True \<or>
                 d = compareFailed \<and> r = Inr False)))"
    and "(k, Fail) \<in> set (a @ b @ c @ d)"
  shows "r = Inr False \<and> last (a @ b @ c @ d) = (k, Fail) \<and>
        Fail \<notin> snd ` set (butlast (a @ b @ c @ d)) \<and>
        (position k < position k' \<longrightarrow> last (Pending # statuses_in k' (a @ b @ c @ d)) = Pending)"
  using assms unfolding run_defs
  apply (elim disjE conjE insertE emptyE)
  apply (cases k'; auto simp: statuses_in_def)+
  done

text \<open>
  C3. In every run, once a step is set to \<open>Fail\<close>, that update is the last one of the
  run and the only failure: no later phase starts (each phase begins with an update) and
  no step changes status any more; every step ordered after the failing one is
  \<open>Pending\<close>; and \<open>verify\<close> returns \<open>false\<close>.
\<close>

theorem verify_halts_on_fail:
  assumes "(k, Fail) \<in> set (brief (since s (snd (verify E p v s))))"
  shows "fst (verify E p v s) = Inr False \<and>
         last (brief (since s (snd (verify E p v s)))) = (k, Fail) \<and>
         Fail \<notin> snd ` set (butlast (brief (since s (snd (verify E p v s))))) \<and>
         (\<forall>k'. position k < position k' \<longrightarrow>
            status (progress (snd (verify E p v s)) k') = Pending)"
proof -
  from verify_events [of s E p v] obtain a b c d where
    e: "brief (since s (snd (verify E p v s))) = a @ b @ c @ d" and
    pr: "progress (snd (verify E p v s)) =
           foldl applyUpdate createProgress (since s (snd (verify E p v s)))" and
    r: "a \<in> registryFailed \<and> b = [] \<and> c = [] \<and> d = [] \<and> fst (verify E p v s) = Inr False \<or>
        a \<in> registryRaised \<and> b = [] \<and> c = [] \<and> d = [] \<and> fst (verify E p v s) = Inl TypeError \<or>
        a \<in> registryPassed \<and>
          (b = checkoutFailed \<and> c = [] \<and> d = [] \<and> fst (verify E p v s) = Inr False \<or>
           b = checkoutPassed \<and>
             (c \<in> packFailed \<and> d = [] \<and> fst (verify E p v s) = Inr False \<or>
              c \<in> packPassed \<and>
                (d = comparePassed \<and> fst (verify E p v s) = Inr True \<or>
                 d = compareFailed \<and> fst (verify E p v s) = Inr False)))"
    by blast
  have st: "status (progress (snd (verify E p v s)) k') = last (Pending # statuses_in k' (a @ b @ c @ d))"
    for k'
    by (simp add: pr status_foldl status_createProgress statuses_of_brief e)
  from assms have m: "(k, Fail) \<in> set (a @ b @ c @ d)" by (simp add: e)
  from halt_enum [OF r m] show ?thesis by (simp add: st e)
qed

theorem verify_halts_on_fail_witness:
  "(Install, Fail) \<in> set (brief (since start (snd (verify envInstallFails ''pkg'' ''latest'' start)))) \<and>
   fst (verify envInstallFails ''pkg'' ''latest'' start) = Inr False \<and>
   status (progress (snd (verify envInstallFails ''pkg'' ''latest'' start)) Pack) = Pending \<and>
   status (progress (snd (verify envInstallFails ''pkg'' ''latest'' start)) Compare) = Pending"
proof -
  have h: "(Install, Fail) \<in>
      set (brief (since start (snd (verify envInstallFails ''pkg'' ''latest'' start))))"
    by code_simp
  note t = verify_halts_on_fail [OF h]
  from t have a: "\<forall>k'. position Install < position k' \<longrightarrow>
      status (progress (snd (verify envInstallFails ''pkg'' ''latest'' start)) k') = Pending"
    by blast
  from a [rule_format, of Pack] a [rule_format, of Compare] t h show ?thesis by simp
qed

section \<open>No exception escapes a run over a well-formed response\<close>

lemma registry_raises:
  assumes "registry E p v s = (Inl e, s')"
  shows "\<exists>info. get E (registryUrl p) = Inr info \<and>
     (info = JUndefined \<or> info = JNull \<or>
      (\<exists>resolved. resolveVersion E info v = Inr resolved \<and>
         (toString resolved = Inl TypeError \<or>
          (\<exists>vi repo. findVersionInfo E info resolved = Inr vi \<and>
             getProp vi ''repository'' = Inr repo \<and>
             ((\<exists>ty. getProp repo ''type'' = Inr ty \<and> toString ty = Inl TypeError) \<or>
              (\<exists>url. getProp repo ''url'' = Inr url \<and> truthy url \<and>
                 (\<forall>u. url \<noteq> JStr u)))))))"
  using assms
  by (auto simp: registry_def Let_def split: sum.splits if_splits jsval.splits
      dest: resolveVersion_error findVersionInfo_error toString_error findVersionInfo_no_raise)

lemma result_enum:
  assumes "a \<in> registryFailed \<and> b = [] \<and> c = [] \<and> d = [] \<and> r = Inr False \<or>
        a \<in> registryPassed \<and>
          (b = checkoutFailed \<and> c = [] \<and> d = [] \<and> r = Inr False \<or>
           b = checkoutPassed \<and>
             (c \<in> packFailed \<and> d = [] \<and> r = Inr False \<or>
              c \<in> packPassed \<and>
                (d = comparePassed \<and> r = Inr True \<or>
                 d = compareFailed \<and> r = Inr False)))"
  shows "r = Inr (Fail \<notin> snd ` set (a @ b @ c @ d))"
  using assms unfolding run_defs
  apply (elim disjE conjE insertE emptyE)
  apply simp_all
  done

text \<open>
  C4, as the claim states it, fails: \<open>verify\<close> has no handler of its own, and a property
  read, a string conversion or a method call on the registry response can raise outside
  every \<open>try\<close>. Here the repository URL of the resolved version is the number 1, and
  \<open>versionInfo.repository.url.startsWith\<close> on line 112 raises a TypeError that rejects
  the promise.
\<close>

theorem verify_raises_on_numeric_url:
  "fst (verify envNumericUrl ''pkg'' ''latest'' start) = Inl TypeError"
  by code_simp

text \<open>
  So do the conversion of a resolved version or of a repository type that is an object
  with a member named \<open>toString\<close>, on lines 68 and 96, and the same method call on an
  entry found in an array of versions.
\<close>

lemma verify_raises_on_conversion:
  "fst (verify envVersionObject ''pkg'' ''latest'' start) = Inl TypeError"
  "fst (verify envTypeObject ''pkg'' ''latest'' start) = Inl TypeError"
  "fst (verify envVersionsArray ''pkg'' ''latest'' start) = Inl TypeError"
  by code_simp+

text \<open>
  C4, amended. Whatever the package name, the version and the behaviour of the
  collaborators and of the runtime are, provided that, when the request succeeds,

  \<^item> the registry response is neither \<open>null\<close> nor \<open>undefined\<close>,
  \<^item> the version the run resolves converts to a string (it is not an object with a
    member named \<open>toString\<close>, nor an array that holds one),
  \<^item> the repository type of the version entry the run finds converts to a string, and
  \<^item> its repository URL is a string whenever it is truthy:

  \<open>verify\<close> raises nothing and resolves to a boolean, which is \<open>false\<close> exactly when a
  step was set to \<open>Fail\<close>.
\<close>

theorem verify_resolves:
  assumes "\<forall>info. get E (registryUrl p) = Inr info \<longrightarrow>
     info \<noteq> JNull \<and> info \<noteq> JUndefined \<and>
     (\<forall>resolved. resolveVersion E info v = Inr resolved \<longrightarrow>
        (\<exists>k. toString resolved = Inr k) \<and>
        (\<forall>vi repo. findVersionInfo E info resolved = Inr vi \<and>
             getProp vi ''repository'' = Inr repo \<longrightarrow>
           (\<forall>ty. getProp repo ''type'' = Inr ty \<longrightarrow> (\<exists>t. toString ty = Inr t)) \<and>
           (\<forall>url. getProp repo ''url'' = Inr url \<and> truthy url \<longrightarrow> (\<exists>u. url = JStr u))))"
  shows "fst (verify E p v s) =
     Inr (Fail \<notin> snd ` set (brief (since s (snd (verify E p v s)))))"
proof -
  define s0 where "s0 = s\<lparr>progress := createProgress, hasFailed := False, hasPrinted := False\<rparr>"
  have no_raise: "fst (verify E p v s) \<noteq> Inl TypeError"
    using s0_def
  proof (cases rule: verify_cases [where E = E and p = p and v = v])
    case (raised s1)
    from registry_raises [OF raised(1)] obtain info where
      g: "get E (registryUrl p) = Inr info" and
      c: "info = JUndefined \<or> info = JNull \<or>
        (\<exists>resolved. resolveVersion E info v = Inr resolved \<and>
           (toString resolved = Inl TypeError \<or>
            (\<exists>vi repo. findVersionInfo E info resolved = Inr vi \<and>
               getProp vi ''repository'' = Inr repo \<and>
               ((\<exists>ty. getProp repo ''type'' = Inr ty \<and> toString ty = Inl TypeError) \<or>
                (\<exists>url. getProp repo ''url'' = Inr url \<and> truthy url \<and>
                   (\<forall>u. url \<noteq> JStr u))))))"
      by blast
    from assms g have
      n: "info \<noteq> JNull" "info \<noteq> JUndefined" and
      a: "\<forall>resolved. resolveVersion E info v = Inr resolved \<longrightarrow>
        (\<exists>k. toString resolved = Inr k) \<and>
        (\<forall>vi repo. findVersionInfo E info resolved = Inr vi \<and>
             getProp vi ''repository'' = Inr repo \<longrightarrow>
           (\<forall>ty. getProp repo ''type'' = Inr ty \<longrightarrow> (\<exists>t. toString ty = Inr t)) \<and>
           (\<forall>url. getProp repo ''url'' = Inr url \<and> truthy url \<longrightarrow> (\<exists>u. url = JStr u)))"
      by blast+
    from c n obtain resolved where
      r: "resolveVersion E info v = Inr resolved" and
      c': "toString resolved = Inl TypeError \<or>
        (\<exists>vi repo. findVersionInfo E info resolved = Inr vi \<and>
           getProp vi ''repository'' = Inr repo \<and>
           ((\<exists>ty. getProp repo ''type'' = Inr ty \<and> toString ty = Inl TypeError) \<or>
            (\<exists>url. getProp repo ''url'' = Inr url \<and> truthy url \<and> (\<forall>u. url \<noteq> JStr u))))"
      by blast
    from a r have k: "\<exists>k. toString resolved = Inr k" and
      b: "\<forall>vi repo. findVersionInfo E info resolved = Inr vi \<and>
             getProp vi ''repository'' = Inr repo \<longrightarrow>
           (\<forall>ty. getProp repo ''type'' = Inr ty \<longrightarrow> (\<exists>t. toString ty = Inr t)) \<and>
           (\<forall>url. getProp repo ''url'' = Inr url \<and> truthy url \<longrightarrow> (\<exists>u. url = JStr u))"
      by blast+
    from c' k obtain vi repo where
      f: "findVersionInfo E info resolved = Inr vi" "getProp vi ''repository'' = Inr repo" and
      d: "(\<exists>ty. getProp repo ''type'' = Inr ty \<and> toString ty = Inl TypeError) \<or>
          (\<exists>url. getProp repo ''url'' = Inr url \<and> truthy url \<and> (\<forall>u. url \<noteq> JStr u))"
      by auto
    from b f have
      "\<forall>ty. getProp repo ''type'' = Inr ty \<longrightarrow> (\<exists>t. toString ty = Inr t)"
      "\<forall>url. getProp repo ''url'' = Inr url \<and> truthy url \<longrightarrow> (\<exists>u. url = JStr u)"
      by blast+
    with d have False by auto
    then show ?thesis ..
  qed simp_all
  from verify_events [of s E p v] obtain a b c d where
    e: "brief (since s (snd (verify E p v s))) = a @ b @ c @ d" and
    r: "a \<in> registryFailed \<and> b = [] \<and> c = [] \<and> d = [] \<and> fst (verify E p v s) = Inr False \<or>
        a \<in> registryRaised \<and> b = [] \<and> c = [] \<and> d = [] \<and> fst (verify E p v s) = Inl TypeError \<or>
        a \<in> registryPassed \<and>
          (b = checkoutFailed \<and> c = [] \<and> d = [] \<and> fst (verify E p v s) = Inr False \<or>
           b = checkoutPassed \<and>
             (c \<in> packFailed \<and> d = [] \<and> fst (verify E p v s) = Inr False \<or>
              c \<in> packPassed \<and>
                (d = comparePassed \<and> fst (verify E p v s) = Inr True \<or>
                 d = compareFailed \<and> fst (verify E p v s) = Inr False)))"
    by blast
  with no_raise have
    "a \<in> registryFailed \<and> b = [] \<and> c = [] \<and> d = [] \<and> fst (verify E p v s) = Inr False \<or>
        a \<in> registryPassed \<and>
          (b = checkoutFailed \<and> c = [] \<and> d = [] \<and> fst (verify E p v s) = Inr False \<or>
           b = checkoutPassed \<and>
             (c \<in> packFailed \<and> d = [] \<and> fst (verify E p v s) = Inr False \<or>
              c \<in> packPassed \<and>
                (d = comparePassed \<and> fst (verify E p v s) = Inr True \<or>
                 d = compareFailed \<and> fst (verify E p v s) = Inr False)))"
    by blast
  from result_enum [OF this] show ?thesis by (simp add: e)
qed

theorem verify_resolves_witness:
  "fst (verify envNoTag ''pkg'' ''latest'' start) = Inr False \<and>
   Fail \<in> snd ` set (brief (since start (snd (verify envNoTag ''pkg'' ''latest'' start))))"
proof -
  have h: "\<forall>info. get envNoTag (registryUrl ''pkg'') = Inr info \<longrightarrow>
     info \<noteq> JNull \<and> info \<noteq> JUndefined \<and>
     (\<forall>resolved. resolveVersion envNoTag info ''latest'' = Inr resolved \<longrightarrow>
        (\<exists>k. toString resolved = Inr k) \<and>
        (\<forall>vi repo. findVersionInfo envNoTag info resolved = Inr vi \<and>
             getProp vi ''repository'' = Inr repo \<longrightarrow>
           (\<forall>ty. getProp repo ''type'' = Inr ty \<longrightarrow> (\<exists>t. toString ty = Inr t)) \<and>
           (\<forall>url. getProp repo ''url'' = Inr url \<and> truthy url \<longrightarrow> (\<exists>u. url = JStr u))))"
    by (auto simp: envNoTag_def sampleEnv_def get_def infoA_def sampleInfo_def sampleVersion_def
        resolveVersion_def findVersionInfo_def getComputed_def)
  have f: "Fail \<in> snd ` set (brief (since start (snd (verify envNoTag ''pkg'' ''latest'' start))))"
    by code_simp
  from verify_resolves [OF h, of start] f show ?thesis by simp
qed

section \<open>The working directory\<close>

text \<open>
  C5. The checkout phase, called with a commit that is a string or absent and with a
  version that converts to a string (the declared types are strings, and \<open>verify\<close> never
  passes anything else), and the pack phase leave the working directory of the process as
  it was when the phase started, on every exit path, raised exceptions included; so does
  every run of \<open>verify\<close>, whatever the registry sends.
\<close>

theorem phases_restore_cwd:
  "(((\<exists>g. gitHead' = JStr g) \<or> \<not> truthy gitHead') \<and> (\<exists>k. toString rv = Inr k) \<longrightarrow>
      cwd (snd (checkout E u gitHead' rv s)) = cwd s) \<and>
   cwd (snd (pack E td s)) = cwd s \<and>
   cwd (snd (verify E p v s)) = cwd s"
proof (intro conjI impI)
  assume g: "((\<exists>g. gitHead' = JStr g) \<or> \<not> truthy gitHead') \<and> (\<exists>k. toString rv = Inr k)"
  obtain r s' where C: "checkout E u gitHead' rv s = (r, s')"
    by (cases "checkout E u gitHead' rv s")
  from checkout_paths(2) [OF C] g have "cwd s' = cwd s" by auto
  with C show "cwd (snd (checkout E u gitHead' rv s)) = cwd s" by simp
next
  obtain r s' where P: "pack E td s = (r, s')" by (cases "pack E td s")
  from pack_paths(2) [OF P] P show "cwd (snd (pack E td s)) = cwd s" by simp
next
  define s0 where "s0 = s\<lparr>progress := createProgress, hasFailed := False, hasPrinted := False\<rparr>"
  from s0_def show "cwd (snd (verify E p v s)) = cwd s"
    by (cases rule: verify_cases [where E = E and p = p and v = v]) simp_all
qed

theorem phases_restore_cwd_witness:
  "cwd (snd (checkout envNoTag (JStr ''https://github.com/o/r.git'') (JStr sampleHead)
      (JStr ''1.2.3'') start)) = ''/home/user''"
  using phases_restore_cwd [where gitHead' = "JStr sampleHead" and E = envNoTag
      and u = "JStr ''https://github.com/o/r.git''" and rv = "JStr ''1.2.3''" and s = start]
  by (simp add: start_def)

text \<open>
  The hypothesis is needed, for a direct call of the phase only. On a truthy commit that
  is not a string, the handler of the failed fetch raises at \<open>gitHead.substring\<close>, before
  line 194 restores the directory. With no commit and a version that does not convert to
  a string, the template literal of line 211 raises before line 213 restores it. No run of
  \<open>verify\<close> gets to either: the commit it passes is always \<open>undefined\<close>, and the version
  it passes was converted by the registry phase, on line 68.
\<close>

lemma checkout_raises_in_handler:
  "fst (checkout envNoTag (JStr ''https://github.com/o/r.git'') (JNum True ''1'') (JStr ''1.2.3'') start) =
     Inl TypeError \<and>
   cwd (snd (checkout envNoTag (JStr ''https://github.com/o/r.git'') (JNum True ''1'') (JStr ''1.2.3'') start)) =
     ''/tmp/tbv''"
  by code_simp

lemma checkout_raises_on_version:
  "fst (checkout envA (JStr ''https://github.com/o/r.git'') JUndefined
      (JObj [(''toString'', JNum True ''1'')]) start) = Inl TypeError \<and>
   cwd (snd (checkout envA (JStr ''https://github.com/o/r.git'') JUndefined
      (JObj [(''toString'', JNum True ''1'')]) start)) = ''/tmp/tbv''"
  by code_simp

lemma verify_version_converts:
  assumes "registry E p v s = (Inr r, s')" and "\<not> hasFailed s" and "\<not> hasFailed s'"
  shows "\<exists>k. toString (resolvedVersion r) = Inr k"
proof -
  note rp = registry_paths [OF assms(1)]
  from follows_hasFailed [OF rp(1)] assms(2,3)
  have "Fail \<notin> snd ` set (brief (since s s'))" by simp
  with rp(4) show ?thesis by (auto dest: Fail_registry)
qed

section \<open>The commit named by the registry\<close>

lemma registry_returns_no_gitHead:
  assumes "registry E p v s = (Inr r, s')"
  shows "gitHead r = JUndefined"
  using registry_paths(4) [OF assms] by (auto simp: noRegistryResult_def)

text \<open>
  C1 does not hold of the code: the object \<open>registry\<close> returns has no \<open>gitHead\<close>
  property. In scenario A the registry names the commit \<open>sampleHead\<close>; the registry
  phase returns \<open>undefined\<close> for it, and the run fetches \<open>tags/v1.2.3\<close> and never the
  commit.
\<close>

theorem registry_drops_gitHead:
  "findVersionInfo envA infoA (JStr ''1.2.3'') =
     Inr (sampleVersion (JStr ''git+https://github.com/o/r.git'')
       [(''gitHead'', JStr sampleHead), (''dist'', JObj [(''shasum'', JStr sampleDigest)])]) \<and>
   fst (registry envA ''pkg'' ''latest'' start) =
     Inr \<lparr>resolvedVersion = JStr ''1.2.3'', repoUrl = JStr ''https://github.com/o/r.git'',
          shasum = JStr sampleDigest, gitHead = JUndefined\<rparr> \<and>
   map snd (executed (snd (verify envA ''pkg'' ''latest'' start))) =
     [''git init'',
      ''git remote add origin '' @ [CHR 0x22] @ ''https://github.com/o/r.git'' @ [CHR 0x22],
      ''git fetch --depth 1 origin tags/v1.2.3'', ''git checkout FETCH_HEAD'',
      ''npm pack --dry-run''] \<and>
   ''git fetch --depth 1 origin '' @ sampleHead \<notin>
     set (map snd (executed (snd (verify envA ''pkg'' ''latest'' start))))"
  by code_simp

section \<open>Fetching by tag\<close>

lemma checkout_by_tag:
  assumes "\<not> truthy gitHead'" and "n = length (executed s)" and "createTemp E = Inr tmp"
    and "toString u = Inr url" and "toString rv = Inr k"
    and "run_command E n tmp cmdGitInit = Inr o1"
    and "run_command E (Suc n) tmp (cmdRemoteAdd url) = Inr o2"
    and "checkout E u gitHead' rv s = (r, s')"
  shows
    "(case run_command E (Suc (Suc n)) tmp (cmdFetch (tagV k)) of
        Inr o3 \<Rightarrow>
          r = Inr \<lparr>tempDir = JStr tmp, refspec = JStr (tagV k)\<rparr> \<and>
          commands s s' = [cmdGitInit, cmdRemoteAdd url, cmdFetch (tagV k), cmdCheckoutFetchHead]
      | Inl e3 \<Rightarrow>
          take 4 (commands s s') =
            [cmdGitInit, cmdRemoteAdd url, cmdFetch (tagV k), cmdFetch (tagPlain k)] \<and>
          (case run_command E (Suc (Suc (Suc n))) tmp (cmdFetch (tagPlain k)) of
             Inr o4 \<Rightarrow> r = Inr \<lparr>tempDir = JStr tmp, refspec = JStr (tagPlain k)\<rparr>
           | Inl e4 \<Rightarrow>
               r = Inr \<lparr>tempDir = JStr tmp, refspec = JUndefined\<rparr> \<and>
               length (commands s s') = 4 \<and>
               status (progress s' Checkout) = Fail \<and>
               message (progress s' Checkout) = Some (msgFetchTag k)))"
  using assms
  by (auto simp: checkout_def checkoutFetchHead_def Let_def exec_eq world_sel commands_def
      applyUpdate_def split: sum.splits)

text \<open>
  C6. The command lines, refs and message are written out here as the claim words them,
  \<open>k\<close> being the string the resolved version converts to and \<open>url\<close> the one the
  repository URL converts to. When \<open>gitHead\<close> is absent and the repository was
  initialised, the checkout phase first runs \<open>git fetch --depth 1 origin tags/v{k}\<close>; if
  that succeeds the refspec is \<open>tags/v{k}\<close> and the only further command is the checkout
  of \<open>FETCH_HEAD\<close>. Only if it fails does the phase run
  \<open>git fetch --depth 1 origin tags/{k}\<close>, whose success sets the refspec to \<open>tags/{k}\<close>.
  If both fail, no further command runs, the checkout step is \<open>Fail\<close> with the message
  \<open>Unable fetch tag from remote (tags/{k} or tags/v{k})\<close>, which names both refs, and the
  phase returns \<open>{tempDir}\<close>.
\<close>

theorem checkout_fetches_by_tag:
  assumes "\<not> truthy gitHead'" and "n = length (executed s)" and "createTemp E = Inr tmp"
    and "toString u = Inr url" and "toString rv = Inr k"
    and "run_command E n tmp ''git init'' = Inr o1"
    and "run_command E (Suc n) tmp
           (''git remote add origin '' @ [CHR 0x22] @ url @ [CHR 0x22]) = Inr o2"
    and "checkout E u gitHead' rv s = (r, s')"
  shows
    "(case run_command E (Suc (Suc n)) tmp (''git fetch --depth 1 origin tags/v'' @ k) of
        Inr o3 \<Rightarrow>
          r = Inr \<lparr>tempDir = JStr tmp, refspec = JStr (''tags/v'' @ k)\<rparr> \<and>
          commands s s' =
            [''git init'', ''git remote add origin '' @ [CHR 0x22] @ url @ [CHR 0x22],
             ''git fetch --depth 1 origin tags/v'' @ k, ''git checkout FETCH_HEAD'']
      | Inl e3 \<Rightarrow>
          take 4 (commands s s') =
            [''git init'', ''git remote add origin '' @ [CHR 0x22] @ url @ [CHR 0x22],
             ''git fetch --depth 1 origin tags/v'' @ k,
             ''git fetch --depth 1 origin tags/'' @ k] \<and>
          (case run_command E (Suc (Suc (Suc n))) tmp
                  (''git fetch --depth 1 origin tags/'' @ k) of
             Inr o4 \<Rightarrow> r = Inr \<lparr>tempDir = JStr tmp, refspec = JStr (''tags/'' @ k)\<rparr>
           | Inl e4 \<Rightarrow>
               r = Inr \<lparr>tempDir = JStr tmp, refspec = JUndefined\<rparr> \<and>
               length (commands s s') = 4 \<and>
               status (progress s' Checkout) = Fail \<and>
               message (progress s' Checkout) =
                 Some (''Unable fetch tag from remote (tags/'' @ k @ '' or tags/v'' @ k @
                       '')'')))"
proof -
  have c: "cmdGitInit = ''git init''"
    "cmdRemoteAdd url = ''git remote add origin '' @ [CHR 0x22] @ url @ [CHR 0x22]"
    "cmdFetch (tagV k) = ''git fetch --depth 1 origin tags/v'' @ k"
    "cmdFetch (tagPlain k) = ''git fetch --depth 1 origin tags/'' @ k"
    "cmdCheckoutFetchHead = ''git checkout FETCH_HEAD''"
    "msgFetchTag k =
       ''Unable fetch tag from remote (tags/'' @ k @ '' or tags/v'' @ k @ '')''"
    by (simp_all add: cmdGitInit_def cmdRemoteAdd_def cmdFetch_def tagV_def tagPlain_def
        cmdCheckoutFetchHead_def msgFetchTag_def)
  have d: "tagV k = ''tags/v'' @ k" "tagPlain k = ''tags/'' @ k"
    by (simp_all add: tagV_def tagPlain_def)
  have 6: "run_command E n tmp cmdGitInit = Inr o1" using assms(6) unfolding c .
  have 7: "run_command E (Suc n) tmp (cmdRemoteAdd url) = Inr o2" using assms(7) unfolding c .
  have "(case run_command E (Suc (Suc n)) tmp (''git fetch --depth 1 origin tags/v'' @ k) of
        Inr o3 \<Rightarrow>
          r = Inr \<lparr>tempDir = JStr tmp, refspec = JStr (tagV k)\<rparr> \<and>
          commands s s' =
            [''git init'', ''git remote add origin '' @ [CHR 0x22] @ url @ [CHR 0x22],
             ''git fetch --depth 1 origin tags/v'' @ k, ''git checkout FETCH_HEAD'']
      | Inl e3 \<Rightarrow>
          take 4 (commands s s') =
            [''git init'', ''git remote add origin '' @ [CHR 0x22] @ url @ [CHR 0x22],
             ''git fetch --depth 1 origin tags/v'' @ k,
             ''git fetch --depth 1 origin tags/'' @ k] \<and>
          (case run_command E (Suc (Suc (Suc n))) tmp
                  (''git fetch --depth 1 origin tags/'' @ k) of
             Inr o4 \<Rightarrow> r = Inr \<lparr>tempDir = JStr tmp, refspec = JStr (tagPlain k)\<rparr>
           | Inl e4 \<Rightarrow>
               r = Inr \<lparr>tempDir = JStr tmp, refspec = JUndefined\<rparr> \<and>
               length (commands s s') = 4 \<and>
               status (progress s' Checkout) = Fail \<and>
               message (progress s' Checkout) =
                 Some (''Unable fetch tag from remote (tags/'' @ k @ '' or tags/v'' @ k @
                       '')'')))"
    using checkout_by_tag [OF assms(1-5) 6 7 assms(8)] unfolding c .
  then show ?thesis unfolding d .
qed

theorem checkout_fetches_by_tag_witness:
  "fst (checkout envNoTag (JStr ''https://github.com/o/r.git'') JUndefined (JStr ''1.2.3'') start) =
     Inr \<lparr>tempDir = JStr ''/tmp/tbv'', refspec = JUndefined\<rparr> \<and>
   take 4 (commands start
     (snd (checkout envNoTag (JStr ''https://github.com/o/r.git'') JUndefined (JStr ''1.2.3'') start))) =
     [''git init'',
      ''git remote add origin '' @ [CHR 0x22] @ ''https://github.com/o/r.git'' @ [CHR 0x22],
      ''git fetch --depth 1 origin tags/v1.2.3'', ''git fetch --depth 1 origin tags/1.2.3''] \<and>
   length (commands start
     (snd (checkout envNoTag (JStr ''https://github.com/o/r.git'') JUndefined (JStr ''1.2.3'') start))) = 4 \<and>
   status (progress
     (snd (checkout envNoTag (JStr ''https://github.com/o/r.git'') JUndefined (JStr ''1.2.3'') start))
     Checkout) = Fail \<and>
   message (progress
     (snd (checkout envNoTag (JStr ''https://github.com/o/r.git'') JUndefined (JStr ''1.2.3'') start))
     Checkout) = Some ''Unable fetch tag from remote (tags/1.2.3 or tags/v1.2.3)''"
proof -
  let ?c = "checkout envNoTag (JStr ''https://github.com/o/r.git'') JUndefined (JStr ''1.2.3'') start"
  have 1: "\<not> truthy JUndefined" by simp
  have 2: "0 = length (executed start)" by (simp add: start_def)
  have 3: "createTemp envNoTag = Inr ''/tmp/tbv''"
    by (simp add: createTemp_def envNoTag_def sampleEnv_def)
  have 4: "toString (JStr ''https://github.com/o/r.git'') = Inr ''https://github.com/o/r.git''"
    "toString (JStr ''1.2.3'') = Inr ''1.2.3''"
    by simp_all
  have 5: "run_command envNoTag 0 ''/tmp/tbv'' ''git init'' =
      Inr (''npm notice shasum:        '' @ sampleDigest @ [CHR 0x0A])"
    "run_command envNoTag (Suc 0) ''/tmp/tbv''
       (''git remote add origin '' @ [CHR 0x22] @ ''https://github.com/o/r.git'' @ [CHR 0x22]) =
      Inr (''npm notice shasum:        '' @ sampleDigest @ [CHR 0x0A])"
    by (simp_all add: envNoTag_def sampleEnv_def)
  have 6: "?c = (fst ?c, snd ?c)" by simp
  have 7: "run_command envNoTag (Suc (Suc 0)) ''/tmp/tbv''
       (''git fetch --depth 1 origin tags/v'' @ ''1.2.3'') = Inl (ProcessError ''exit 1'')"
    "run_command envNoTag (Suc (Suc (Suc 0))) ''/tmp/tbv''
       (''git fetch --depth 1 origin tags/'' @ ''1.2.3'') = Inl (ProcessError ''exit 1'')"
    by (simp_all add: envNoTag_def sampleEnv_def)
  from checkout_fetches_by_tag [OF 1 2 3 4 5 6] show ?thesis unfolding 7 by simp
qed


section \<open>Extracting the digest\<close>

lemma pack_parses:
  assumes "n = length (executed s)"
    and "run_command E n d cmdNpmPack = Inr out \<or>
       (\<exists>e. run_command E n d cmdNpmPack = Inl e) \<and>
       (\<exists>o1. run_command E (Suc n) d cmdNpmCi = Inr o1) \<and>
       run_command E (Suc (Suc n)) d cmdNpmPack = Inr out"
  shows "\<exists>s2. pack E (JStr d) s = parseShasum (cwd s) out s2"
  using assms
  by (auto simp: pack_def Let_def exec_eq world_sel)

lemma parseShasum_result:
  "regexExec out = Some h \<Longrightarrow>
     fst (parseShasum d0 out s) = Inr \<lparr>remoteShasum = JStr h\<rparr> \<and>
     status (progress (snd (parseShasum d0 out s)) Pack) = Pass"
  "regexExec out = None \<Longrightarrow>
     fst (parseShasum d0 out s) = Inr \<lparr>remoteShasum = JUndefined\<rparr> \<and>
     status (progress (snd (parseShasum d0 out s)) Pack) = Fail \<and>
     message (progress (snd (parseShasum d0 out s)) Pack) = Some msgParseShasum"
  by (simp_all add: parseShasum_def world_sel applyUpdate_def)

text \<open>
  C7. Whenever the pack phase gets an output from the pack command, at the first attempt
  or at the one after the install: if the output contains a substring matching
  \<open>shasum:\s+([0-9a-f]{40})\<close>, the phase returns as \<open>remoteShasum\<close> the 40 lowercase
  hex characters of the leftmost such substring and the pack step is \<open>Pass\<close>; if it
  contains none, the pack step is \<open>Fail\<close> with the message
  \<open>Error parsing shasum from pack output\<close> and the phase returns \<open>{}\<close>.
\<close>

theorem pack_extracts_digest:
  assumes "n = length (executed s)"
    and "run_command E n d ''npm pack --dry-run'' = Inr out \<or>
       (\<exists>e. run_command E n d ''npm pack --dry-run'' = Inl e) \<and>
       (\<exists>o1. run_command E (Suc n) d ''npm ci'' = Inr o1) \<and>
       run_command E (Suc (Suc n)) d ''npm pack --dry-run'' = Inr out"
  shows
    "if \<exists>pre ws h post. shasumOccurrence out pre ws h post
     then \<exists>pre ws h post. shasumOccurrence out pre ws h post \<and>
            (\<forall>pre' ws' h' post'. shasumOccurrence out pre' ws' h' post' \<longrightarrow>
               length pre \<le> length pre' \<and> (length pre' = length pre \<longrightarrow> h' = h)) \<and>
            fst (pack E (JStr d) s) = Inr \<lparr>remoteShasum = JStr h\<rparr> \<and>
            status (progress (snd (pack E (JStr d) s)) Pack) = Pass
     else fst (pack E (JStr d) s) = Inr \<lparr>remoteShasum = JUndefined\<rparr> \<and>
          status (progress (snd (pack E (JStr d) s)) Pack) = Fail \<and>
          message (progress (snd (pack E (JStr d) s)) Pack) = Some ''Error parsing shasum from pack output''"
proof -
  have "run_command E n d cmdNpmPack = Inr out \<or>
       (\<exists>e. run_command E n d cmdNpmPack = Inl e) \<and>
       (\<exists>o1. run_command E (Suc n) d cmdNpmCi = Inr o1) \<and>
       run_command E (Suc (Suc n)) d cmdNpmPack = Inr out"
    using assms(2) by (simp add: cmdNpmPack_def cmdNpmCi_def)
  from pack_parses [OF assms(1) this] obtain s2 where
    P: "pack E (JStr d) s = parseShasum (cwd s) out s2" by blast
  show ?thesis
  proof (cases "regexExec out")
    case None
    then have "\<not> (\<exists>pre ws h post. shasumOccurrence out pre ws h post)"
      using regexExec_None by blast
    with parseShasum_result(2) [OF None, of "cwd s" s2] show ?thesis
      by (simp add: P msgParseShasum_def)
  next
    case (Some h)
    from regexExec_leftmost [OF Some] obtain pre ws post where
      o: "shasumOccurrence out pre ws h post" and
      l: "\<forall>pre' ws' h' post'. shasumOccurrence out pre' ws' h' post' \<longrightarrow>
            length pre \<le> length pre' \<and> (length pre' = length pre \<longrightarrow> h' = h)"
      by blast
    from o have ex: "\<exists>pre ws h post. shasumOccurrence out pre ws h post" by blast
    from parseShasum_result(1) [OF Some, of "cwd s" s2] o l have
      "\<exists>pre ws h post. shasumOccurrence out pre ws h post \<and>
            (\<forall>pre' ws' h' post'. shasumOccurrence out pre' ws' h' post' \<longrightarrow>
               length pre \<le> length pre' \<and> (length pre' = length pre \<longrightarrow> h' = h)) \<and>
            fst (pack E (JStr d) s) = Inr \<lparr>remoteShasum = JStr h\<rparr> \<and>
            status (progress (snd (pack E (JStr d) s)) Pack) = Pass"
      unfolding P by blast
    with ex show ?thesis by simp
  qed
qed

theorem pack_extracts_digest_witness:
  "shasumOccurrence (''npm notice shasum:        '' @ sampleDigest @ [CHR 0x0A])
     ''npm notice '' ''        '' sampleDigest [CHR 0x0A] \<and>
   fst (pack envA (JStr ''/tmp/tbv'') start) = Inr \<lparr>remoteShasum = JStr sampleDigest\<rparr> \<and>
   status (progress (snd (pack envA (JStr ''/tmp/tbv'') start)) Pack) = Pass"
proof -
  let ?out = "''npm notice shasum:        '' @ sampleDigest @ [CHR 0x0A]"
  have o: "shasumOccurrence ?out ''npm notice '' ''        '' sampleDigest [CHR 0x0A]"
    by (simp add: shasumOccurrence_def sampleDigest_def isSpace_def isHex_def)
  have 1: "0 = length (executed start)" by (simp add: start_def)
  have 2: "run_command envA 0 ''/tmp/tbv'' ''npm pack --dry-run'' = Inr ?out \<or>
       (\<exists>e. run_command envA 0 ''/tmp/tbv'' ''npm pack --dry-run'' = Inl e) \<and>
       (\<exists>o1. run_command envA (Suc 0) ''/tmp/tbv'' ''npm ci'' = Inr o1) \<and>
       run_command envA (Suc (Suc 0)) ''/tmp/tbv'' ''npm pack --dry-run'' = Inr ?out"
    by (simp add: envA_def sampleEnv_def)
  from o have ex: "\<exists>pre ws h post. shasumOccurrence ?out pre ws h post" by blast
  from pack_extracts_digest [OF 1 2] ex obtain pre ws h post where
    l: "\<forall>pre' ws' h' post'. shasumOccurrence ?out pre' ws' h' post' \<longrightarrow>
          length pre \<le> length pre' \<and> (length pre' = length pre \<longrightarrow> h' = h)" and
    o': "shasumOccurrence ?out pre ws h post" and
    r: "fst (pack envA (JStr ''/tmp/tbv'') start) = Inr \<lparr>remoteShasum = JStr h\<rparr>"
       "status (progress (snd (pack envA (JStr ''/tmp/tbv'') start)) Pack) = Pass"
    by auto
  have "fst (pack envA (JStr ''/tmp/tbv'') start) = Inr \<lparr>remoteShasum = JStr sampleDigest\<rparr>"
    by code_simp
  with r o show ?thesis by simp
qed


section \<open>A missing commit is a warning\<close>

lemma registry_passed:
  assumes "get E (registryUrl p) = Inr info" and "resolveVersion E info v = Inr resolved"
    and "findVersionInfo E info resolved = Inr vi"
    and "registry E p v s = (r, s')" and "brief (since s s') \<in> registryPassed"
  shows "\<exists>head. getProp vi ''gitHead'' = Inr head \<and>
      brief (since s s') =
        (if truthy head
         then [(Registry, Working), (Registry, Pass), (Repo, Working), (Repo, Pass),
               (GitHead, Working), (GitHead, Pass)]
         else [(Registry, Working), (Registry, Pass), (Repo, Working), (Repo, Pass),
               (GitHead, Working), (GitHead, Warn), (GitHead, Pass)])"
    and "\<exists>x. r = Inr x \<and> registryShasum vi = Inr (shasum x)"
  using assms unfolding registryPassed_def
  by (auto simp: registry_def Let_def world_sel brief_def since_def
      split: sum.splits if_splits jsval.splits)

lemma no_GitHead:
  "b \<in> {checkoutFailed, checkoutPassed, comparePassed, compareFailed, []} \<union> packFailed \<union> packPassed
   \<Longrightarrow> statuses_in GitHead b = []"
  unfolding run_defs by (auto simp: statuses_in_def)

lemma no_Repo_Pass:
  "a \<in> registryFailed \<union> registryRaised \<Longrightarrow> (Repo, Pass) \<notin> set a"
  unfolding run_defs by auto

lemma no_Pack_Pass:
  "a \<in> registryFailed \<union> registryRaised \<union> registryPassed \<union> {checkoutFailed, checkoutPassed}
     \<union> packFailed \<Longrightarrow> (Pack, Pass) \<notin> set a"
  unfolding run_defs by auto

lemma Checkout_Working:
  "(Checkout, Working) \<in> set checkoutFailed" "(Checkout, Working) \<in> set checkoutPassed"
  by (simp_all add: run_defs)

lemma statuses_in_registryPassed:
  "statuses_in GitHead
     (if t then [(Registry, Working), (Registry, Pass), (Repo, Working), (Repo, Pass),
                 (GitHead, Working), (GitHead, Pass)]
      else [(Registry, Working), (Registry, Pass), (Repo, Working), (Repo, Pass),
            (GitHead, Working), (GitHead, Warn), (GitHead, Pass)]) =
   (if t then [Working, Pass] else [Working, Warn, Pass])"
  by (simp add: statuses_in_def)

text \<open>
  C8. In every run whose registry response passes the registry and repo steps: if
  \<open>versionInfo.gitHead\<close> is missing (falsy), the gitHead step is set to \<open>Working\<close>, to
  \<open>Warn\<close> and then to \<open>Pass\<close>; if it is present, to \<open>Working\<close> and directly to \<open>Pass\<close>.
  Either way the fail flag is not set when the registry phase returns, and the run goes
  on to the checkout phase.
\<close>

theorem gitHead_warns_then_passes:
  assumes "get E (registryUrl p) = Inr info" and "resolveVersion E info v = Inr resolved"
    and "findVersionInfo E info resolved = Inr vi" and "getProp vi ''gitHead'' = Inr head"
    and "(Repo, Pass) \<in> set (brief (since s (snd (verify E p v s))))"
  shows "statuses_of GitHead (since s (snd (verify E p v s))) =
           (if truthy head then [Working, Pass] else [Working, Warn, Pass]) \<and>
         \<not> hasFailed (snd (registry E p v
             (s\<lparr>progress := createProgress, hasFailed := False, hasPrinted := False\<rparr>))) \<and>
         (Checkout, Working) \<in> set (brief (since s (snd (verify E p v s))))"
proof -
  define s0 where "s0 = s\<lparr>progress := createProgress, hasFailed := False, hasPrinted := False\<rparr>"
  have since0: "\<And>x. since s0 x = since s x" by (simp add: s0_def)
  have nf0: "\<not> hasFailed s0" by (simp add: s0_def)
  have main: "statuses_of GitHead (since s s') =
           (if truthy head then [Working, Pass] else [Working, Warn, Pass]) \<and>
         \<not> hasFailed s1 \<and> (Checkout, Working) \<in> set (brief (since s s'))"
    if R: "registry E p v s0 = (Inr r, s1)" and B: "brief (since s0 s1) \<in> registryPassed"
      and F: "follows s0 (since s0 s1 @ rest) s'"
      and b: "brief rest = b @ c @ d" "b = checkoutFailed \<or> b = checkoutPassed"
        "c \<in> {[]} \<union> packFailed \<union> packPassed" "d \<in> {[], comparePassed, compareFailed}"
    for r s1 s' rest b c d
  proof -
    from registry_passed(1) [OF assms(1-3) R B] assms(4) have
      e1: "brief (since s0 s1) =
        (if truthy head
         then [(Registry, Working), (Registry, Pass), (Repo, Working), (Repo, Pass),
               (GitHead, Working), (GitHead, Pass)]
         else [(Registry, Working), (Registry, Pass), (Repo, Working), (Repo, Pass),
               (GitHead, Working), (GitHead, Warn), (GitHead, Pass)])"
      by auto
    from follows_since [OF F] have e: "since s s' = since s0 s1 @ rest" by (simp add: since0)
    have gb: "statuses_in GitHead b = []" using b(2) by (intro no_GitHead) auto
    have gc: "statuses_in GitHead c = []" using b(3) by (intro no_GitHead) auto
    have gd: "statuses_in GitHead d = []" using b(4) by (intro no_GitHead) auto
    have g: "statuses_in GitHead (b @ c @ d) = []"
      unfolding statuses_in_append gb gc gd by simp
    have "statuses_of GitHead (since s s') =
        statuses_in GitHead (brief (since s0 s1)) @ statuses_in GitHead (b @ c @ d)"
      by (simp add: statuses_of_brief e brief_append statuses_in_append b(1))
    also have "\<dots> = statuses_in GitHead (brief (since s0 s1))" by (simp add: g)
    also have "\<dots> = (if truthy head then [Working, Pass] else [Working, Warn, Pass])"
      unfolding e1 by (rule statuses_in_registryPassed)
    finally have 1: "statuses_of GitHead (since s s') =
        (if truthy head then [Working, Pass] else [Working, Warn, Pass])" .
    from follows_hasFailed [OF registry_paths(1) [OF R]] nf0 B have 2: "\<not> hasFailed s1"
      by (simp add: Fail_registry)
    from b(2) have "(Checkout, Working) \<in> set b" by (auto simp: Checkout_Working)
    then have 3: "(Checkout, Working) \<in> set (brief (since s s'))"
      by (simp add: e brief_append b(1))
    from 1 2 3 show ?thesis by blast
  qed
  from s0_def have "statuses_of GitHead (since s (snd (verify E p v s))) =
           (if truthy head then [Working, Pass] else [Working, Warn, Pass]) \<and>
         \<not> hasFailed (snd (registry E p v s0)) \<and>
         (Checkout, Working) \<in> set (brief (since s (snd (verify E p v s))))"
  proof (cases rule: verify_cases [where E = E and p = p and v = v])
    case (raised s1)
    with assms(5) no_Repo_Pass [of "brief (since s0 s1)"] show ?thesis by (simp add: since0)
  next
    case (registry_failed s1)
    with assms(5) no_Repo_Pass [of "brief (since s0 s1)"] show ?thesis by (simp add: since0)
  next
    case (checkout_failed r s1 c s2)
    from main [OF checkout_failed(1,2,6), of "brief (since s1 s2)" "[]" "[]"] checkout_failed
    show ?thesis by simp
  next
    case (pack_failed r s1 c tmp s2 s3)
    from main [OF pack_failed(1,2,9), of "brief (since s1 s2)" "brief (since s2 s3)" "[]"]
      pack_failed
    show ?thesis by (simp add: brief_append)
  next
    case (compared r s1 c tmp s2 dg s3 s4)
    from main [OF compared(1,2,12), of "brief (since s1 s2)" "brief (since s2 s3)"
        "brief (since s3 s4)"] compared(1-8,10,11)
    show ?thesis by (simp add: brief_append)
  qed
  then show ?thesis by (simp add: s0_def)
qed

theorem gitHead_warns_then_passes_witness:
  "statuses_of GitHead (since start (snd (verify envNoHead ''pkg'' ''latest'' start))) =
     [Working, Warn, Pass] \<and>
   (Checkout, Working) \<in> set (brief (since start (snd (verify envNoHead ''pkg'' ''latest'' start))))"
proof -
  have 1: "get envNoHead (registryUrl ''pkg'') = Inr (sampleInfo versionNoHead)"
    by (simp add: get_def envNoHead_def sampleEnv_def)
  have 2: "resolveVersion envNoHead (sampleInfo versionNoHead) ''latest'' = Inr (JStr ''1.2.3'')"
    by (simp add: resolveVersion_def sampleInfo_def getComputed_def)
  have 3: "findVersionInfo envNoHead (sampleInfo versionNoHead) (JStr ''1.2.3'') = Inr versionNoHead"
    by (simp add: findVersionInfo_def sampleInfo_def getComputed_def)
  have 4: "getProp versionNoHead ''gitHead'' = Inr JUndefined"
    by (simp add: versionNoHead_def sampleVersion_def)
  have 5: "(Repo, Pass) \<in>
      set (brief (since start (snd (verify envNoHead ''pkg'' ''latest'' start))))"
    by code_simp
  from gitHead_warns_then_passes [OF 1 2 3 4 5] show ?thesis by simp
qed

section \<open>A missing registry digest\<close>

lemma missing_digest_falsy:
  assumes "getProp vi ''_shasum'' = Inr JUndefined" and "getProp vi ''dist'' = Inr dist"
    and "\<not> truthy dist \<or> getProp dist ''shasum'' = Inr JUndefined"
    and "registryShasum vi = Inr sh"
  shows "\<not> truthy sh"
  using assms by (auto simp: registryShasum_def split: if_splits)

lemma falsy_is_no_digest: "\<not> truthy a \<Longrightarrow> length dg = 40 \<Longrightarrow> \<not> strict_eq a (JStr dg)"
  by (cases a) auto

text \<open>
  C10. If the registry entry of the resolved version has neither \<open>_shasum\<close> nor
  \<open>dist.shasum\<close> and the run gets as far as a passing pack step, then the compare step
  is \<open>Fail\<close> with the message \<open>Shasums do not match\<close> and \<open>verify\<close> returns \<open>false\<close>:
  neither \<open>true\<close> nor an exception.
\<close>

theorem missing_digest_fails_compare:
  assumes "get E (registryUrl p) = Inr info" and "resolveVersion E info v = Inr resolved"
    and "findVersionInfo E info resolved = Inr vi"
    and "getProp vi ''_shasum'' = Inr JUndefined" and "getProp vi ''dist'' = Inr dist"
    and "\<not> truthy dist \<or> getProp dist ''shasum'' = Inr JUndefined"
    and "(Pack, Pass) \<in> set (brief (since s (snd (verify E p v s))))"
  shows "fst (verify E p v s) = Inr False \<and>
         status (progress (snd (verify E p v s)) Compare) = Fail \<and>
         message (progress (snd (verify E p v s)) Compare) = Some ''Shasums do not match''"
proof -
  define s0 where "s0 = s\<lparr>progress := createProgress, hasFailed := False, hasPrinted := False\<rparr>"
  have since0: "\<And>x. since s0 x = since s x" by (simp add: s0_def)
  from s0_def show ?thesis
  proof (cases rule: verify_cases [where E = E and p = p and v = v])
    case (raised s1)
    with assms(7) no_Pack_Pass [of "brief (since s0 s1)"] show ?thesis by (simp add: since0)
  next
    case (registry_failed s1)
    with assms(7) no_Pack_Pass [of "brief (since s0 s1)"] show ?thesis by (simp add: since0)
  next
    case (checkout_failed r s1 c s2)
    from follows_since [OF checkout_failed(6)] have
      "since s s2 = since s0 s1 @ since s1 s2" by (simp add: since0)
    with assms(7) checkout_failed no_Pack_Pass [of "brief (since s0 s1)"]
      no_Pack_Pass [of "brief (since s1 s2)"]
    show ?thesis by (simp add: brief_append)
  next
    case (pack_failed r s1 c tmp s2 s3)
    from follows_since [OF pack_failed(9)] have
      "since s s3 = since s0 s1 @ since s1 s2 @ since s2 s3" by (simp add: since0)
    with assms(7) pack_failed no_Pack_Pass [of "brief (since s0 s1)"]
      no_Pack_Pass [of "brief (since s1 s2)"] no_Pack_Pass [of "brief (since s2 s3)"]
    show ?thesis by (simp add: brief_append)
  next
    case (compared r s1 c tmp s2 dg s3 s4)
    from registry_passed(2) [OF assms(1-3) compared(1,2)] have
      "registryShasum vi = Inr (shasum r)" by simp
    from missing_digest_falsy [OF assms(4-6) this] have "\<not> truthy (shasum r)" .
    from falsy_is_no_digest [OF this compared(7)] have n: "\<not> strict_eq (shasum r) (JStr dg)" .
    have "status (progress s4 Compare) = Fail \<and>
        message (progress s4 Compare) = Some ''Shasums do not match''"
      using n
      by (simp add: compared(9) compare_def Let_def world_sel applyUpdate_def msgMismatch_def)
    with compared(11) n show ?thesis by simp
  qed
qed

theorem missing_digest_fails_compare_witness:
  "fst (verify envNoShasum ''pkg'' ''latest'' start) = Inr False \<and>
   status (progress (snd (verify envNoShasum ''pkg'' ''latest'' start)) Compare) = Fail \<and>
   (Pack, Pass) \<in> set (brief (since start (snd (verify envNoShasum ''pkg'' ''latest'' start))))"
proof -
  have 1: "get envNoShasum (registryUrl ''pkg'') = Inr (sampleInfo versionNoShasum)"
    by (simp add: get_def envNoShasum_def sampleEnv_def)
  have 2: "resolveVersion envNoShasum (sampleInfo versionNoShasum) ''latest'' = Inr (JStr ''1.2.3'')"
    by (simp add: resolveVersion_def sampleInfo_def getComputed_def)
  have 3: "findVersionInfo envNoShasum (sampleInfo versionNoShasum) (JStr ''1.2.3'') = Inr versionNoShasum"
    by (simp add: findVersionInfo_def sampleInfo_def getComputed_def)
  have 4: "getProp versionNoShasum ''_shasum'' = Inr JUndefined"
    by (simp add: versionNoShasum_def sampleVersion_def)
  have 5: "getProp versionNoShasum ''dist'' = Inr JUndefined"
    by (simp add: versionNoShasum_def sampleVersion_def)
  have 6: "\<not> truthy JUndefined \<or> getProp JUndefined ''shasum'' = Inr JUndefined" by simp
  have 7: "(Pack, Pass) \<in>
      set (brief (since start (snd (verify envNoShasum ''pkg'' ''latest'' start))))"
    by code_simp
  from missing_digest_fails_compare [OF 1 2 3 4 5 6 7] 7 show ?thesis by simp
qed


end
